theory Spec2Isabelle
  imports Main "HOL-Library.Sublist"
begin

section \<open>The Ubuntu network manager of the BOSH agent\<close>

text \<open>
  A shallow embedding of \<^verbatim>\<open>go_agent/src/bosh/platform/net/ubuntu_net_manager.go\<close>.
  Every Go function of the file is a HOL function of the same name. The file system and
  the log sink that the receiver \<^verbatim>\<open>net\<close> holds are state: they live in the record
  \<open>world\<close>, which every effectful function takes and returns. Each call that changes
  something outside the process (a file write, an external command, a log line, the
  launch of the goroutine) is appended to the trace of the world in program order.
\<close>

subsection \<open>Go values\<close>

text \<open>A Go \<^verbatim>\<open>error\<close>: a message, or an error wrapped by \<^verbatim>\<open>bosherr.WrapError\<close> with the
  (already formatted) description of the failing step.\<close>

datatype error = Error string | WrapError error string

text \<open>A \<^verbatim>\<open>chan error\<close> is known by its identity; the nil channel is \<open>None\<close>.\<close>

type_synonym chan = nat

text \<open>Modelled from the spec: the type \<^verbatim>\<open>boshsettings.Network\<close> is declared outside this
  file. The spec's NetworkSpec has a kind, ip, netmask, gateway, mac and an ordered dns list,
  and a designation of what the network is the default for.\<close>

record Network =
  Type :: string
  IP :: string
  Netmask :: string
  Gateway :: string
  Default :: "string list"
  DNS :: "string list"
  Mac :: string

text \<open>Modelled from the spec: \<^verbatim>\<open>boshsettings.Networks\<close> is declared outside this file; the
  spec gives the desired topology as an ordered collection of NetworkSpec entries, and
  \<^verbatim>\<open>range networks\<close> visits them in that order.\<close>

type_synonym Networks = "Network list"

text \<open>Modelled from the spec: \<^verbatim>\<open>customNetwork\<close> (the spec's ResolvedNetwork) is declared
  in another file of the package. It embeds the Network and adds the fields the composite
  literal of \<^verbatim>\<open>writeNetworkInterfaces\<close> fills in order and the template reads by name.\<close>

record customNetwork =
  Network :: Network
  Interface :: string
  NetworkIP :: string
  Broadcast :: string
  HasDefaultGateway :: bool

text \<open>\<^verbatim>\<open>dnsConfigArg{dnsServers}\<close>, the argument of the resolv.conf template.\<close>

record dnsConfigArg =
  DNSServers :: "string list"

subsection \<open>Effects\<close>

datatype event =
    RunCommandEv string "string list"
  | ConvergeFileContentsEv string string
  | WriteFileEv string string
  | InfoEv string string error
  | GoGratuitiousArpEv "customNetwork list" "chan option"
  | SleepEv int
  | SendEv chan "error option"

text \<open>Modelled from the spec: the file system collaborator \<^verbatim>\<open>boshsys.FileSystem\<close> is an
  interface implemented outside this file. The spec's contract is
  \<^verbatim>\<open>convergeFileContents(path, bytes) -> (changed, error)\<close>, \<^verbatim>\<open>writeFile(path, bytes) -> error\<close>,
  \<^verbatim>\<open>readFileString(path) -> (string, error)\<close>, \<^verbatim>\<open>glob(pattern) -> ([]path, error)\<close>. The state
  holds the content of every file, the listing each glob pattern yields, and the errors the
  disk answers reads and writes of a path with.\<close>

record FileSystem =
  files :: "string \<rightharpoonup> string"
  globResults :: "string \<Rightarrow> error + string list"
  readErrors :: "string \<rightharpoonup> error"
  writeErrors :: "string \<rightharpoonup> error"

text \<open>Modelled from the spec: convergeFileContents "must compare newContent against the
  file's current on-disk content (treating a non-existent file as empty) and write only on
  difference, returning whether a write occurred".\<close>

definition ConvergeFileContents ::
  "FileSystem \<Rightarrow> string \<Rightarrow> string \<Rightarrow> (bool \<times> error option) \<times> FileSystem" where
  "ConvergeFileContents fsys path content =
     (if (case files fsys path of None \<Rightarrow> [] | Some old \<Rightarrow> old) = content
      then ((False, None), fsys)
      else (case writeErrors fsys path of
              Some e \<Rightarrow> ((False, Some e), fsys)
            | None \<Rightarrow> ((True, None), fsys\<lparr>files := (files fsys)(path \<mapsto> content)\<rparr>)))"

text \<open>Modelled from the spec: writeFile replaces the content of the path, or fails.\<close>

definition WriteFile :: "FileSystem \<Rightarrow> string \<Rightarrow> string \<Rightarrow> error option \<times> FileSystem" where
  "WriteFile fsys path content =
     (case writeErrors fsys path of
        Some e \<Rightarrow> (Some e, fsys)
      | None \<Rightarrow> (None, fsys\<lparr>files := (files fsys)(path \<mapsto> content)\<rparr>))"

text \<open>Modelled from the spec: readFileString yields the content of the path, or fails.\<close>

definition ReadFileString :: "FileSystem \<Rightarrow> string \<Rightarrow> error + string" where
  "ReadFileString fsys path =
     (case readErrors fsys path of
        Some e \<Rightarrow> Inl e
      | None \<Rightarrow> (case files fsys path of
                  None \<Rightarrow> Inl (Error ''no such file or directory'')
                | Some content \<Rightarrow> Inr content))"

text \<open>Modelled from the spec: glob lists the paths matching a pattern, or fails.\<close>

definition Glob :: "FileSystem \<Rightarrow> string \<Rightarrow> error + string list" where
  "Glob fsys pattern = globResults fsys pattern"

record world =
  fs :: FileSystem
  trace :: "event list"

text \<open>The command runner \<^verbatim>\<open>boshsys.CmdRunner\<close> is an interface implemented outside this
  file; it is a parameter. What a command answers (stdout, stderr, exit status, error) may
  depend on everything that happened before it.\<close>

record CmdRunner =
  RunCommand :: "event list \<Rightarrow> string \<Rightarrow> string list \<Rightarrow> string \<times> string \<times> int \<times> error option"
  CommandExists :: "string \<Rightarrow> bool"

text \<open>The receiver. Its \<^verbatim>\<open>fs\<close> and \<^verbatim>\<open>logger\<close> are the state of the world.\<close>

record ubuntuNetManager =
  arpWaitInterval :: int
  cmdRunner :: CmdRunner

text \<open>The functions of the packages \<^verbatim>\<open>boshsettings\<close> and \<^verbatim>\<open>boshsys\<close> that the file calls
  and that are defined outside it; they are parameters.\<close>

record bosh =
  DefaultNetworkFor :: "Networks \<Rightarrow> string \<Rightarrow> Network option"
  CalculateNetworkAndBroadcast :: "string \<Rightarrow> string \<Rightarrow> error + (string \<times> string)"

definition runCommand ::
  "ubuntuNetManager \<Rightarrow> string \<Rightarrow> string list \<Rightarrow> world
     \<Rightarrow> (string \<times> string \<times> int \<times> error option) \<times> world" where
  "runCommand net cmd args w =
     (RunCommand (cmdRunner net) (trace w) cmd args,
      w\<lparr>trace := trace w @ [RunCommandEv cmd args]\<rparr>)"

text \<open>\<^verbatim>\<open>if err != nil { net.logger.Info(tag, format, err) }\<close>\<close>

definition infoIfErr :: "string \<Rightarrow> error option \<Rightarrow> world \<Rightarrow> world" where
  "infoIfErr format err w =
     (case err of
        None \<Rightarrow> w
      | Some e \<Rightarrow> w\<lparr>trace := trace w @ [InfoEv ''ubuntuNetManager'' format e]\<rparr>)"

subsection \<open>The Go standard library functions the file uses\<close>

text \<open>\<^verbatim>\<open>strings.Join(elems, sep)\<close>\<close>

fun strings_Join :: "string list \<Rightarrow> string \<Rightarrow> string" where
  "strings_Join [] sep = []"
| "strings_Join [x] sep = x"
| "strings_Join (x # y # ys) sep = x @ sep @ strings_Join (y # ys) sep"

text \<open>\<^verbatim>\<open>strings.Trim(s, "\n")\<close>: all leading and trailing newlines removed.\<close>

definition strings_Trim_newline :: "string \<Rightarrow> string" where
  "strings_Trim_newline s =
     rev (dropWhile (\<lambda>c. c = CHR 0x0A) (rev (dropWhile (\<lambda>c. c = CHR 0x0A) s)))"

text \<open>\<^verbatim>\<open>strings.Split(s, "/")\<close>\<close>

fun splitOn :: "char \<Rightarrow> string \<Rightarrow> string list" where
  "splitOn d [] = [[]]"
| "splitOn d (c # cs) =
     (if c = d then [] # splitOn d cs
      else (case splitOn d cs of [] \<Rightarrow> [[c]] | l # ls \<Rightarrow> (c # l) # ls))"

text \<open>\<^verbatim>\<open>filepath.Clean\<close>: empty and \<^verbatim>\<open>.\<close> elements are dropped, a \<^verbatim>\<open>..\<close> removes the element
  before it (at the root it is dropped, at the start of a relative path it stays).
  The accumulator holds the kept elements, last first.\<close>

fun cleanElems :: "bool \<Rightarrow> string list \<Rightarrow> string list \<Rightarrow> string list" where
  "cleanElems rooted [] acc = rev acc"
| "cleanElems rooted (e # es) acc =
     (if e = [] \<or> e = ''.'' then cleanElems rooted es acc
      else if e = ''..'' then
        (case acc of
           [] \<Rightarrow> if rooted then cleanElems rooted es [] else cleanElems rooted es [''..'']
         | a # as \<Rightarrow> if a = ''..'' then cleanElems rooted es (e # a # as)
                     else cleanElems rooted es as)
      else cleanElems rooted es (e # acc))"

definition filepath_Clean :: "string \<Rightarrow> string" where
  "filepath_Clean path =
     (let rooted = (case path of [] \<Rightarrow> False | c # _ \<Rightarrow> c = CHR ''/'');
          out = strings_Join (cleanElems rooted (splitOn CHR ''/'' path) []) ''/''
      in if rooted then CHR ''/'' # out else if out = [] then ''.'' else out)"

text \<open>\<^verbatim>\<open>filepath.Join(a, b)\<close>: empty elements are ignored, the result is cleaned; with no
  non-empty element the result is the empty string.\<close>

definition filepath_Join :: "string \<Rightarrow> string \<Rightarrow> string" where
  "filepath_Join a b =
     (if a = [] \<and> b = [] then []
      else if a = [] then filepath_Clean b
      else if b = [] then filepath_Clean a
      else filepath_Clean (a @ ''/'' @ b))"

text \<open>\<^verbatim>\<open>filepath.Base(path)\<close>: the last element, trailing slashes removed first; \<^verbatim>\<open>.\<close> for the
  empty path, \<^verbatim>\<open>/\<close> for a path of slashes only.\<close>

definition filepath_Base :: "string \<Rightarrow> string" where
  "filepath_Base path =
     (if path = [] then ''.''
      else (let stripped = dropWhile (\<lambda>c. c = CHR ''/'') (rev path);
                last_elem = rev (takeWhile (\<lambda>c. c \<noteq> CHR ''/'') stripped)
            in if last_elem = [] then ''/'' else last_elem))"

text \<open>\<^verbatim>\<open>regexp.MustCompile(lit).MatchString(s)\<close> for a pattern that is a literal text: an
  unanchored search for the text.\<close>

fun MatchString :: "string \<Rightarrow> string \<Rightarrow> bool" where
  "MatchString lit [] = (lit = [])"
| "MatchString lit (c # cs) = (prefix lit (c # cs) \<or> MatchString lit cs)"

text \<open>The pattern \<^verbatim>\<open>ifup version 0\.7\<close> has one escaped dot and no other metacharacter: it
  matches the literal text below.\<close>

definition ifupVersion07Regex :: string where
  "ifupVersion07Regex = ''ifup version 0.7''"

subsection \<open>getDNSServers\<close>

text \<open>\<^verbatim>\<open>for i := len(dns) - 1; i >= 0; i-- { dnsServers = append(dnsServers, dns[i]) }\<close>.
  The counter of the model is \<open>i + 1\<close>, so that the loop ends at \<open>0\<close>.\<close>

fun getDNSServers_loop :: "string list \<Rightarrow> nat \<Rightarrow> string list \<Rightarrow> string list" where
  "getDNSServers_loop dns 0 dnsServers = dnsServers"
| "getDNSServers_loop dns (Suc i) dnsServers = getDNSServers_loop dns i (dnsServers @ [dns ! i])"

definition getDNSServers :: "bosh \<Rightarrow> Networks \<Rightarrow> string list" where
  "getDNSServers pkg networks =
     (case DefaultNetworkFor pkg networks ''dns'' of
        Some dnsNetwork \<Rightarrow> getDNSServers_loop (DNS dnsNetwork) (length (DNS dnsNetwork)) []
      | None \<Rightarrow> [])"

subsection \<open>The templates\<close>

text \<open>A template executed into a \<^verbatim>\<open>bytes.Buffer\<close>: the rendered text, or an error.\<close>

definition ubuntuDHCPConfigTemplate :: "string \<Rightarrow> error + string" where
  \<open>ubuntuDHCPConfigTemplate dot = Inr (
     ''# Generated by bosh-agent\<newline>'' @
     ''\<newline>'' @
     ''option rfc3442-classless-static-routes code 121 = array of unsigned integer 8;\<newline>'' @
     ''\<newline>'' @
     ''send host-name "<hostname>";\<newline>'' @
     ''\<newline>'' @
     ''request subnet-mask, broadcast-address, time-offset, routers,\<newline>'' @
     [CHR 0x09] @ ''domain-name, domain-name-servers, domain-search, host-name,\<newline>'' @
     [CHR 0x09] @ ''netbios-name-servers, netbios-scope, interface-mtu,\<newline>'' @
     [CHR 0x09] @ ''rfc3442-classless-static-routes, ntp-servers;\<newline>'' @
     ''\<newline>'' @
     ''prepend domain-name-servers '' @ dot @ '';\<newline>'')\<close>

text \<open>The body of \<^verbatim>\<open>{{ range . }} ... {{ end }}\<close> of the interfaces template for one
  element: it starts with the newline after \<^verbatim>\<open>{{ range . }}\<close> and ends with the gateway
  text, which has no newline after it.\<close>

definition interfaceStanza :: "customNetwork \<Rightarrow> string" where
  "interfaceStanza n =
     ''\<newline>'' @
     ''auto '' @ Interface n @ ''\<newline>'' @
     ''iface '' @ Interface n @ '' inet static\<newline>'' @
     ''    address '' @ IP (Network n) @ ''\<newline>'' @
     ''    network '' @ NetworkIP n @ ''\<newline>'' @
     ''    netmask '' @ Netmask (Network n) @ ''\<newline>'' @
     ''    broadcast '' @ Broadcast n @ ''\<newline>'' @
     (if HasDefaultGateway n then ''    gateway '' @ Gateway (Network n) else [])"

definition ubuntuNetworkInterfacesTemplate :: "customNetwork list \<Rightarrow> error + string" where
  "ubuntuNetworkInterfacesTemplate dot = Inr (
     ''# Generated by bosh-agent\<newline>'' @
     ''auto lo\<newline>'' @
     ''iface lo inet loopback\<newline>'' @
     concat (map interfaceStanza dot))"

definition ubuntuResolvConfTemplate :: "dnsConfigArg \<Rightarrow> error + string" where
  "ubuntuResolvConfTemplate dot = Inr (
     ''# Generated by bosh-agent\<newline>'' @
     concat (map (\<lambda>server. ''nameserver '' @ server @ ''\<newline>'') (DNSServers dot)))"

subsection \<open>The file system and the goroutine, as the manager sees them\<close>

definition convergeFileContents ::
  "string \<Rightarrow> string \<Rightarrow> world \<Rightarrow> (bool \<times> error option) \<times> world" where
  "convergeFileContents path content w =
     (case ConvergeFileContents (fs w) path content of
        (res, fsys) \<Rightarrow>
          (res, w\<lparr>fs := fsys, trace := trace w @ [ConvergeFileContentsEv path content]\<rparr>))"

definition writeFile :: "string \<Rightarrow> string \<Rightarrow> world \<Rightarrow> error option \<times> world" where
  "writeFile path content w =
     (case WriteFile (fs w) path content of
        (err, fsys) \<Rightarrow> (err, w\<lparr>fs := fsys, trace := trace w @ [WriteFileEv path content]\<rparr>))"

text \<open>Indexing a Go map: a key that is absent yields the zero value, the empty string.\<close>

definition mapIndex :: "(string \<rightharpoonup> string) \<Rightarrow> string \<Rightarrow> string" where
  "mapIndex m k = (case m k of None \<Rightarrow> [] | Some v \<Rightarrow> v)"

subsection \<open>restartNetworkArguments and dhclientConfigFile\<close>

definition restartNetworkArguments :: "ubuntuNetManager \<Rightarrow> world \<Rightarrow> string list \<times> world" where
  "restartNetworkArguments net w =
     (case runCommand net ''ifup'' [''--version''] w of
        ((stdout, _, _, err), w1) \<Rightarrow>
          (let w2 = infoIfErr ''Ignoring ifup version failure: %#v'' err w1
           in if MatchString ifupVersion07Regex stdout
              then ([''-a'', ''--no-loopback''], w2)
              else ([''-a'', ''--exclude=lo''], w2)))"

definition dhclientConfigFile :: "ubuntuNetManager \<Rightarrow> string" where
  "dhclientConfigFile net =
     (if CommandExists (cmdRunner net) ''dhclient3''
      then ''/etc/dhcp3/dhclient.conf''
      else ''/etc/dhcp/dhclient.conf'')"

subsection \<open>SetupDhcp\<close>

definition SetupDhcp :: "bosh \<Rightarrow> ubuntuNetManager \<Rightarrow> Networks \<Rightarrow> world \<Rightarrow> error option \<times> world" where
  "SetupDhcp pkg net networks w =
     (let dnsServers = getDNSServers pkg networks;
          dnsServersList = strings_Join dnsServers '', ''
      in case ubuntuDHCPConfigTemplate dnsServersList of
           Inl err \<Rightarrow> (Some (WrapError err ''Generating config from template''), w)
         | Inr buffer \<Rightarrow>
             (case convergeFileContents (dhclientConfigFile net) buffer w of
                ((written, Some err), w1) \<Rightarrow>
                  (Some (WrapError err (''Writing to '' @ dhclientConfigFile net)), w1)
              | ((written, None), w1) \<Rightarrow>
                  if written then
                    (case restartNetworkArguments net w1 of
                       (args, w2) \<Rightarrow>
                         (case runCommand net ''ifdown'' args w2 of
                            ((_, _, _, err), w3) \<Rightarrow>
                              (case runCommand net ''ifup'' args
                                      (infoIfErr ''Ignoring ifdown failure: %#v'' err w3) of
                                 ((_, _, _, err'), w4) \<Rightarrow>
                                   (None, infoIfErr ''Ignoring ifup failure: %#v'' err' w4))))
                  else (None, w1)))"

subsection \<open>detectMacAddresses\<close>

fun detectMacAddresses_loop ::
  "FileSystem \<Rightarrow> string list \<Rightarrow> (string \<rightharpoonup> string) \<Rightarrow> (string \<rightharpoonup> string) \<times> error option" where
  "detectMacAddresses_loop fsys [] addresses = (addresses, None)"
| "detectMacAddresses_loop fsys (filePath # rest) addresses =
     (case ReadFileString fsys (filepath_Join filePath ''address'') of
        Inl err \<Rightarrow> (addresses, Some (WrapError err ''Reading mac address from file''))
      | Inr macAddress \<Rightarrow>
          detectMacAddresses_loop fsys rest
            (addresses(strings_Trim_newline macAddress \<mapsto> filepath_Base filePath)))"

definition detectMacAddresses :: "FileSystem \<Rightarrow> (string \<rightharpoonup> string) \<times> error option" where
  "detectMacAddresses fsys =
     (case Glob fsys ''/sys/class/net/*'' of
        Inl err \<Rightarrow> (Map.empty, Some (WrapError err ''Getting file list from /sys/class/net''))
      | Inr filePaths \<Rightarrow> detectMacAddresses_loop fsys filePaths Map.empty)"

subsection \<open>writeNetworkInterfaces\<close>

fun writeNetworkInterfaces_loop ::
  "bosh \<Rightarrow> (string \<rightharpoonup> string) \<Rightarrow> Network list \<Rightarrow> customNetwork list
     \<Rightarrow> customNetwork list \<times> error option" where
  "writeNetworkInterfaces_loop pkg macAddresses [] modifiedNetworks = (modifiedNetworks, None)"
| "writeNetworkInterfaces_loop pkg macAddresses (aNet # rest) modifiedNetworks =
     (case CalculateNetworkAndBroadcast pkg (IP aNet) (Netmask aNet) of
        Inl err \<Rightarrow> (modifiedNetworks, Some (WrapError err ''Calculating network and broadcast''))
      | Inr (network, broadcast) \<Rightarrow>
          writeNetworkInterfaces_loop pkg macAddresses rest
            (modifiedNetworks @
               [\<lparr>Network = aNet,
                 Interface = mapIndex macAddresses (Mac aNet),
                 NetworkIP = network,
                 Broadcast = broadcast,
                 HasDefaultGateway = True\<rparr>]))"

definition writeNetworkInterfaces ::
  "bosh \<Rightarrow> Networks \<Rightarrow> world \<Rightarrow> (customNetwork list \<times> bool \<times> error option) \<times> world" where
  "writeNetworkInterfaces pkg networks w =
     (case detectMacAddresses (fs w) of
        (macAddresses, Some err) \<Rightarrow>
          (([], False, Some (WrapError err ''Detecting mac addresses'')), w)
      | (macAddresses, None) \<Rightarrow>
          (case writeNetworkInterfaces_loop pkg macAddresses networks [] of
             (modifiedNetworks, Some err) \<Rightarrow> ((modifiedNetworks, False, Some err), w)
           | (modifiedNetworks, None) \<Rightarrow>
               (case ubuntuNetworkInterfacesTemplate modifiedNetworks of
                  Inl err \<Rightarrow>
                    ((modifiedNetworks, False,
                      Some (WrapError err ''Generating config from template'')), w)
                | Inr buffer \<Rightarrow>
                    (case convergeFileContents ''/etc/network/interfaces'' buffer w of
                       ((written, Some err), w1) \<Rightarrow>
                         ((modifiedNetworks, False,
                           Some (WrapError err ''Writing to /etc/network/interfaces'')), w1)
                     | ((written, None), w1) \<Rightarrow> ((modifiedNetworks, written, None), w1)))))"

subsection \<open>restartNetworkingInterfaces\<close>

fun restartNetworkingInterfaces ::
  "ubuntuNetManager \<Rightarrow> customNetwork list \<Rightarrow> world \<Rightarrow> world" where
  "restartNetworkingInterfaces net [] w = w"
| "restartNetworkingInterfaces net (network # rest) w =
     (case runCommand net ''service''
             [''network-interface'', ''stop'', ''INTERFACE='' @ Interface network] w of
        ((_, _, _, err), w1) \<Rightarrow>
          (case runCommand net ''service''
                  [''network-interface'', ''start'', ''INTERFACE='' @ Interface network]
                  (infoIfErr ''Ignoring network stop failure: %#v'' err w1) of
             ((_, _, _, err'), w2) \<Rightarrow>
               restartNetworkingInterfaces net rest
                 (infoIfErr ''Ignoring network start failure: %#v'' err' w2)))"

subsection \<open>writeResolvConf\<close>

definition writeResolvConf :: "bosh \<Rightarrow> Networks \<Rightarrow> world \<Rightarrow> error option \<times> world" where
  "writeResolvConf pkg networks w =
     (let dnsServers = getDNSServers pkg networks;
          dnsServersArg = \<lparr>DNSServers = dnsServers\<rparr>
      in case ubuntuResolvConfTemplate dnsServersArg of
           Inl err \<Rightarrow> (Some (WrapError err ''Generating config from template''), w)
         | Inr buffer \<Rightarrow>
             (case writeFile ''/etc/resolv.conf'' buffer w of
                (Some err, w1) \<Rightarrow> (Some (WrapError err ''Writing to /etc/resolv.conf''), w1)
              | (None, w1) \<Rightarrow> (None, w1)))"

subsection \<open>SetupManualNetworking\<close>

text \<open>\<^verbatim>\<open>go net.gratuitiousArp(modifiedNetworks, errCh)\<close> starts the goroutine and goes on: the
  launch is an event of the caller, the run of the goroutine is \<open>gratuitiousArp\<close> below.\<close>

definition SetupManualNetworking ::
  "bosh \<Rightarrow> ubuntuNetManager \<Rightarrow> Networks \<Rightarrow> chan option \<Rightarrow> world \<Rightarrow> error option \<times> world" where
  "SetupManualNetworking pkg net networks errCh w =
     (case writeNetworkInterfaces pkg networks w of
        ((modifiedNetworks, written, Some err), w1) \<Rightarrow>
          (Some (WrapError err ''Writing network interfaces''), w1)
      | ((modifiedNetworks, written, None), w1) \<Rightarrow>
          (case writeResolvConf pkg networks
                  (if written then restartNetworkingInterfaces net modifiedNetworks w1 else w1) of
             (Some err, w2) \<Rightarrow> (Some (WrapError err ''Writing resolv.conf''), w2)
           | (None, w2) \<Rightarrow>
               (None, w2\<lparr>trace := trace w2 @ [GoGratuitiousArpEv modifiedNetworks errCh]\<rparr>)))"

definition GetDefaultNetwork :: "ubuntuNetManager \<Rightarrow> Network \<times> error option" where
  "GetDefaultNetwork net =
     (\<lparr>Type = [], IP = [], Netmask = [], Gateway = [], Default = [], DNS = [], Mac = []\<rparr>, None)"

subsection \<open>gratuitiousArp\<close>

text \<open>The goroutine runs detached from its caller, while the restarted services surface
  the device nodes. Modelled from the spec: \<^verbatim>\<open>fileExists(path) -> bool\<close> of the file system
  collaborator; \<open>polls k path\<close> is what the \<open>k\<close>-th call of \<^verbatim>\<open>FileExists\<close> made by the
  goroutine answers for \<open>path\<close>. The state of the goroutine is the number of polls made and
  the events it caused.\<close>

record routine =
  polled :: nat
  rtrace :: "event list"

text \<open>\<^verbatim>\<open>for !net.fs.FileExists(path) { time.Sleep(100 * time.Millisecond) }\<close>: the loop has no
  bound, so it need not return.\<close>

partial_function (option) waitFileExists ::
  "(nat \<Rightarrow> string \<Rightarrow> bool) \<Rightarrow> string \<Rightarrow> routine \<Rightarrow> routine option" where
  "waitFileExists polls path r =
     (if polls (polled r) path then Some (r\<lparr>polled := Suc (polled r)\<rparr>)
      else waitFileExists polls path
             (r\<lparr>polled := Suc (polled r), rtrace := rtrace r @ [SleepEv 100000000]\<rparr>))"

definition arping :: "customNetwork \<Rightarrow> event" where
  "arping network =
     RunCommandEv ''arping''
       [''-c'', ''1'', ''-U'', ''-I'', Interface network, IP (Network network)]"

text \<open>\<^verbatim>\<open>for _, network := range networks { ... }\<close>\<close>

fun gratuitiousArp_range ::
  "ubuntuNetManager \<Rightarrow> (nat \<Rightarrow> string \<Rightarrow> bool) \<Rightarrow> customNetwork list \<Rightarrow> routine
     \<Rightarrow> routine option" where
  "gratuitiousArp_range net polls [] r = Some r"
| "gratuitiousArp_range net polls (network # rest) r =
     (case waitFileExists polls (filepath_Join ''/sys/class/net'' (Interface network)) r of
        None \<Rightarrow> None
      | Some r1 \<Rightarrow>
          (case RunCommand (cmdRunner net) (rtrace r1) ''arping''
                  [''-c'', ''1'', ''-U'', ''-I'', Interface network, IP (Network network)] of
             (_, _, _, err) \<Rightarrow>
               gratuitiousArp_range net polls rest
                 (r1\<lparr>rtrace := rtrace r1 @ [arping network] @
                        (case err of
                           None \<Rightarrow> []
                         | Some e \<Rightarrow>
                             [InfoEv ''ubuntuNetManager'' ''Ignoring arping failure: %#v'' e]) @
                        [SleepEv (arpWaitInterval net)]\<rparr>)))"

text \<open>\<^verbatim>\<open>for i := 0; i < 6; i++ { ... }\<close>\<close>

function gratuitiousArp_rounds ::
  "ubuntuNetManager \<Rightarrow> (nat \<Rightarrow> string \<Rightarrow> bool) \<Rightarrow> customNetwork list \<Rightarrow> nat \<Rightarrow> routine
     \<Rightarrow> routine option" where
  "gratuitiousArp_rounds net polls networks i r =
     (if i < 6 then
        (case gratuitiousArp_range net polls networks r of
           None \<Rightarrow> None
         | Some r1 \<Rightarrow> gratuitiousArp_rounds net polls networks (Suc i) r1)
      else Some r)"
  by pat_completeness auto
termination
  by (relation "measure (\<lambda>(net, polls, networks, i, r). 6 - i)") auto

definition gratuitiousArp ::
  "ubuntuNetManager \<Rightarrow> (nat \<Rightarrow> string \<Rightarrow> bool) \<Rightarrow> customNetwork list \<Rightarrow> chan option \<Rightarrow> routine
     \<Rightarrow> routine option" where
  "gratuitiousArp net polls networks errCh r =
     (case gratuitiousArp_rounds net polls networks 0 r of
        None \<Rightarrow> None
      | Some r1 \<Rightarrow>
          Some (case errCh of
                  None \<Rightarrow> r1
                | Some ch \<Rightarrow> r1\<lparr>rtrace := rtrace r1 @ [SendEv ch None]\<rparr>))"

subsection \<open>Reading a trace\<close>

fun isRunCommandEv :: "event \<Rightarrow> bool" where
  "isRunCommandEv (RunCommandEv cmd args) = True"
| "isRunCommandEv e = False"

text \<open>The external commands of a trace, in the order they were run.\<close>

definition commands :: "event list \<Rightarrow> event list" where
  "commands evs = filter isRunCommandEv evs"

fun isFileEv :: "event \<Rightarrow> bool" where
  "isFileEv (ConvergeFileContentsEv path content) = True"
| "isFileEv (WriteFileEv path content) = True"
| "isFileEv e = False"

text \<open>The calls of the two write primitives of the file system in a trace.\<close>

definition fileEvents :: "event list \<Rightarrow> event list" where
  "fileEvents evs = filter isFileEv evs"

text \<open>The text \<^verbatim>\<open>SetupDhcp\<close> hands to the convergent write.\<close>

definition dhcpConfig :: "bosh \<Rightarrow> Networks \<Rightarrow> string" where
  "dhcpConfig pkg networks =
     projr (ubuntuDHCPConfigTemplate (strings_Join (getDNSServers pkg networks) '', ''))"

text \<open>The step of \<^verbatim>\<open>SetupManualNetworking\<close> an event belongs to: the convergent write of
  the interfaces file, the restart of the interfaces (commands and their log lines), the
  write of the resolver configuration, the launch of the goroutine.\<close>

fun phase :: "event \<Rightarrow> nat" where
  "phase (ConvergeFileContentsEv path content) = 0"
| "phase (RunCommandEv cmd args) = 1"
| "phase (InfoEv tag format err) = 1"
| "phase (WriteFileEv path content) = 2"
| "phase (GoGratuitiousArpEv networks errCh) = 3"
| "phase e = 4"

text \<open>The two commands \<^verbatim>\<open>restartNetworkingInterfaces\<close> runs for one network.\<close>

definition serviceBounce :: "customNetwork \<Rightarrow> event list" where
  "serviceBounce network =
     [RunCommandEv ''service'' [''network-interface'', ''stop'', ''INTERFACE='' @ Interface network],
      RunCommandEv ''service'' [''network-interface'', ''start'', ''INTERFACE='' @ Interface network]]"

text \<open>The text \<^verbatim>\<open>writeResolvConf\<close> hands to \<^verbatim>\<open>WriteFile\<close>, and the text
  \<^verbatim>\<open>writeNetworkInterfaces\<close> hands to the convergent write.\<close>

definition resolvConfig :: "bosh \<Rightarrow> Networks \<Rightarrow> string" where
  "resolvConfig pkg networks =
     projr (ubuntuResolvConfTemplate \<lparr>DNSServers = getDNSServers pkg networks\<rparr>)"

definition interfacesConfig :: "customNetwork list \<Rightarrow> string" where
  "interfacesConfig modifiedNetworks = projr (ubuntuNetworkInterfacesTemplate modifiedNetworks)"


text \<open>Two file systems with the same devices: they agree on everything but the content of
  the two files \<^verbatim>\<open>SetupManualNetworking\<close> writes.\<close>

definition sameDevices :: "FileSystem \<Rightarrow> FileSystem \<Rightarrow> bool" where
  "sameDevices a b \<longleftrightarrow>
     globResults a = globResults b \<and> readErrors a = readErrors b \<and>
     writeErrors a = writeErrors b \<and>
     (\<forall>p. p \<noteq> ''/etc/network/interfaces'' \<and> p \<noteq> ''/etc/resolv.conf'' \<longrightarrow> files a p = files b p)"

text \<open>A gateway line of the interfaces file, and a text without a line break.\<close>

definition isGatewayLine :: "string \<Rightarrow> bool" where
  "isGatewayLine l = prefix ''    gateway '' l"

definition hasGatewayLine :: "string \<Rightarrow> bool" where
  "hasGatewayLine text = list_ex isGatewayLine (splitOn CHR 0x0A text)"

definition singleLine :: "string \<Rightarrow> bool" where
  "singleLine s = (CHR 0x0A \<notin> set s)"

fun isSendEv :: "event \<Rightarrow> bool" where
  "isSendEv (SendEv ch err) = True"
| "isSendEv e = False"

subsection \<open>A small machine\<close>

text \<open>One device \<^verbatim>\<open>eth0\<close>; an \<^verbatim>\<open>ifup\<close> of version 0.7; every other command fails.\<close>

definition exampleRunner :: CmdRunner where
  "exampleRunner =
     \<lparr>RunCommand = (\<lambda>history cmd args.
        if cmd = ''ifup'' \<and> args = [''--version'']
        then (''ifup version 0.7.47'', [], 0, None)
        else ([], [], 1, Some (Error ''exit status 1''))),
      CommandExists = (\<lambda>name. False)\<rparr>"

definition exampleManager :: ubuntuNetManager where
  "exampleManager = \<lparr>arpWaitInterval = 10000000, cmdRunner = exampleRunner\<rparr>"

definition examplePkg :: bosh where
  "examplePkg =
     \<lparr>DefaultNetworkFor = (\<lambda>networks category.
        find (\<lambda>n. category \<in> set (Default n)) networks),
      CalculateNetworkAndBroadcast = (\<lambda>ip netmask. Inr (''10.0.0.0'', ''10.0.0.255''))\<rparr>"

text \<open>A network without a gateway, whose MAC is not the MAC of \<^verbatim>\<open>eth0\<close>.\<close>

definition exampleNetwork :: Network where
  "exampleNetwork =
     \<lparr>Type = ''manual'', IP = ''10.0.0.5'', Netmask = ''255.255.255.0'', Gateway = [],
      Default = [''dns''], DNS = [''8.8.8.8'', ''8.8.4.4'', ''1.1.1.1''], Mac = ''aa:bb''\<rparr>"

definition exampleFileSystem :: FileSystem where
  "exampleFileSystem =
     \<lparr>files = [''/sys/class/net/eth0/address'' \<mapsto> ''00:11\<newline>''],
      globResults = (\<lambda>pattern.
        if pattern = ''/sys/class/net/*'' then Inr [''/sys/class/net/eth0''] else Inr []),
      readErrors = Map.empty,
      writeErrors = Map.empty\<rparr>"

definition exampleWorld :: world where
  "exampleWorld = \<lparr>fs = exampleFileSystem, trace = []\<rparr>"

text \<open>What \<^verbatim>\<open>writeNetworkInterfaces\<close> makes of \<open>exampleNetwork\<close> on this machine.\<close>

definition exampleResolved :: customNetwork where
  "exampleResolved = \<lparr>Network = exampleNetwork, Interface = [], NetworkIP = ''10.0.0.0'',
        Broadcast = ''10.0.0.255'', HasDefaultGateway = True\<rparr>"

text \<open>A resolved network whose device \<^verbatim>\<open>eth1\<close> is not there, and a device registry in which
  everything but \<^verbatim>\<open>eth1\<close> exists whenever it is polled.\<close>

definition exampleUnplugged :: customNetwork where
  "exampleUnplugged = \<lparr>Network = exampleNetwork, Interface = ''eth1'', NetworkIP = ''10.0.0.0'',
        Broadcast = ''10.0.0.255'', HasDefaultGateway = True\<rparr>"

definition pollsWithoutEth1 :: "nat \<Rightarrow> string \<Rightarrow> bool" where
  "pollsWithoutEth1 k path = (path \<noteq> ''/sys/class/net/eth1'')"


section \<open>Properties\<close>

subsection \<open>Traces of the primitive steps\<close>

lemma commands_append: "commands (xs @ ys) = commands xs @ commands ys"
  by (simp add: commands_def)

lemma commands_convergeFileContents:
  "commands (trace (snd (convergeFileContents path content w))) = commands (trace w)"
  by (simp add: convergeFileContents_def commands_def split: prod.splits)

lemma commands_restartNetworkArguments:
  "commands (trace (snd (restartNetworkArguments net w))) =
     commands (trace w) @ [RunCommandEv ''ifup'' [''--version'']]"
  by (simp add: restartNetworkArguments_def runCommand_def infoIfErr_def Let_def commands_def
        split: prod.splits option.splits)

subsection \<open>The version probe\<close>

lemma MatchString_sublist: "MatchString lit s = sublist lit s"
  by (induction s) (simp_all add: sublist_Cons_right)

lemma MatchString_iff: "MatchString lit s \<longleftrightarrow> (\<exists>p q. s = p @ lit @ q)"
  by (simp add: MatchString_sublist sublist_def)

text \<open>C3: whatever \<^verbatim>\<open>ifup --version\<close> prints, \<^verbatim>\<open>restartNetworkArguments\<close> returns
  \<^verbatim>\<open>-a --no-loopback\<close> when the output contains the text \<^verbatim>\<open>ifup version 0.7\<close> (the
  version-0.7 signature), and \<^verbatim>\<open>-a --exclude=lo\<close> otherwise.\<close>

theorem restartNetworkArguments_version_probe:
  "fst (restartNetworkArguments net w) =
     (if (\<exists>before after. fst (RunCommand (cmdRunner net) (trace w) ''ifup'' [''--version''])
              = before @ ''ifup version 0.7'' @ after)
      then [''-a'', ''--no-loopback''] else [''-a'', ''--exclude=lo''])"
  by (simp add: restartNetworkArguments_def runCommand_def Let_def ifupVersion07Regex_def
        MatchString_iff split: prod.splits)

subsection \<open>The order of the name servers\<close>

lemma getDNSServers_loop_rev:
  "i \<le> length dns \<Longrightarrow> getDNSServers_loop dns i acc = acc @ rev (take i dns)"
  by (induction i arbitrary: acc) (simp_all add: take_Suc_conv_app_nth)

lemma getDNSServers_rev:
  "getDNSServers pkg networks =
     (case DefaultNetworkFor pkg networks ''dns'' of None \<Rightarrow> [] | Some n \<Rightarrow> rev (DNS n))"
  by (simp add: getDNSServers_def getDNSServers_loop_rev split: option.splits)

text \<open>C4: when the DNS-authoritative network carries the DNS list \<open>[a, b, c]\<close>, the text
  written to \<^verbatim>\<open>/etc/resolv.conf\<close> is the header followed by the lines \<^verbatim>\<open>nameserver c\<close>,
  \<^verbatim>\<open>nameserver b\<close>, \<^verbatim>\<open>nameserver a\<close> in that order; for any DNS list the lines are those of
  the reversed list; with no authoritative network there is no nameserver line.\<close>

theorem writeResolvConf_reversed_dns:
  "(DefaultNetworkFor pkg networks ''dns'' = Some n \<and> DNS n = [a, b, c] \<longrightarrow>
      trace (snd (writeResolvConf pkg networks w)) =
        trace w @ [WriteFileEv ''/etc/resolv.conf''
          (''# Generated by bosh-agent\<newline>'' @
           ''nameserver '' @ c @ ''\<newline>'' @
           ''nameserver '' @ b @ ''\<newline>'' @
           ''nameserver '' @ a @ ''\<newline>'')]) \<and>
   (DefaultNetworkFor pkg networks ''dns'' = Some n \<longrightarrow>
      trace (snd (writeResolvConf pkg networks w)) =
        trace w @ [WriteFileEv ''/etc/resolv.conf''
          (''# Generated by bosh-agent\<newline>'' @
           concat (map (\<lambda>server. ''nameserver '' @ server @ ''\<newline>'') (rev (DNS n))))]) \<and>
   (DefaultNetworkFor pkg networks ''dns'' = None \<longrightarrow>
      trace (snd (writeResolvConf pkg networks w)) =
        trace w @ [WriteFileEv ''/etc/resolv.conf'' ''# Generated by bosh-agent\<newline>''])"
  by (simp add: writeResolvConf_def ubuntuResolvConfTemplate_def getDNSServers_rev Let_def
        writeFile_def split: prod.splits option.splits)

theorem writeResolvConf_reversed_dns_witness:
  "DefaultNetworkFor examplePkg [exampleNetwork] ''dns'' = Some exampleNetwork \<and>
   DNS exampleNetwork = [''8.8.8.8'', ''8.8.4.4'', ''1.1.1.1''] \<and>
   trace (snd (writeResolvConf examplePkg [exampleNetwork] exampleWorld)) =
     [WriteFileEv ''/etc/resolv.conf''
        (''# Generated by bosh-agent\<newline>'' @
         ''nameserver 1.1.1.1\<newline>'' @
         ''nameserver 8.8.4.4\<newline>'' @
         ''nameserver 8.8.8.8\<newline>'')] \<and>
   DefaultNetworkFor examplePkg [] ''dns'' = None \<and>
   trace (snd (writeResolvConf examplePkg [] exampleWorld)) =
     [WriteFileEv ''/etc/resolv.conf'' ''# Generated by bosh-agent\<newline>'']"
proof -
  have found: "DefaultNetworkFor examplePkg [exampleNetwork] ''dns'' = Some exampleNetwork"
    by (simp add: examplePkg_def exampleNetwork_def)
  have dns: "DNS exampleNetwork = [''8.8.8.8'', ''8.8.4.4'', ''1.1.1.1'']"
    by (simp add: exampleNetwork_def)
  have no_default: "DefaultNetworkFor examplePkg [] ''dns'' = None"
    by (simp add: examplePkg_def)
  have empty: "trace exampleWorld = []"
    by (simp add: exampleWorld_def)
  have reversed:
    "trace (snd (writeResolvConf examplePkg [exampleNetwork] exampleWorld)) =
       [WriteFileEv ''/etc/resolv.conf''
          (''# Generated by bosh-agent\<newline>'' @
           ''nameserver 1.1.1.1\<newline>'' @
           ''nameserver 8.8.4.4\<newline>'' @
           ''nameserver 8.8.8.8\<newline>'')]"
    using writeResolvConf_reversed_dns
            [of examplePkg "[exampleNetwork]" exampleNetwork
               "''8.8.8.8''" "''8.8.4.4''" "''1.1.1.1''" exampleWorld]
          found dns empty
    by simp
  have header_only:
    "trace (snd (writeResolvConf examplePkg [] exampleWorld)) =
       [WriteFileEv ''/etc/resolv.conf'' ''# Generated by bosh-agent\<newline>'']"
    using writeResolvConf_reversed_dns
            [of examplePkg "[]" exampleNetwork "[]" "[]" "[]" exampleWorld,
             THEN conjunct2, THEN conjunct2, THEN mp, OF no_default]
          empty
    by simp
  show ?thesis
    using found dns no_default reversed header_only by simp
qed

subsection \<open>SetupDhcp\<close>

text \<open>C7: \<^verbatim>\<open>SetupDhcp\<close> runs \<^verbatim>\<open>ifdown\<close> and then \<^verbatim>\<open>ifup\<close> (after the version probe) exactly
  when the convergent write of the dhclient configuration reported a change, and runs no
  command otherwise. Whatever the commands answer, it returns no error unless the write
  itself failed, and then the error is the wrapped error of the write. (Executing the
  template cannot fail.)\<close>

theorem SetupDhcp_bounce_gated:
  assumes "convergeFileContents (dhclientConfigFile net) (dhcpConfig pkg networks) w
             = ((written, err), w1)"
  shows "fst (SetupDhcp pkg net networks w) =
           (case err of
              None \<Rightarrow> None
            | Some e \<Rightarrow> Some (WrapError e (''Writing to '' @ dhclientConfigFile net))) \<and>
         commands (trace (snd (SetupDhcp pkg net networks w))) =
           commands (trace w) @
           (if err = None \<and> written
            then [RunCommandEv ''ifup'' [''--version''],
                  RunCommandEv ''ifdown'' (fst (restartNetworkArguments net w1)),
                  RunCommandEv ''ifup'' (fst (restartNetworkArguments net w1))]
            else [])"
proof -
  have tpl: "ubuntuDHCPConfigTemplate (strings_Join (getDNSServers pkg networks) '', '')
               = Inr (dhcpConfig pkg networks)"
    by (simp add: dhcpConfig_def ubuntuDHCPConfigTemplate_def)
  have c1: "commands (trace w1) = commands (trace w)"
    using commands_convergeFileContents [of "dhclientConfigFile net" "dhcpConfig pkg networks" w]
    by (simp add: assms)
  show ?thesis
  proof (cases err)
    case (Some e)
    then show ?thesis using assms tpl c1 by (simp add: SetupDhcp_def Let_def)
  next
    case None
    show ?thesis
    proof (cases written)
      case False
      then show ?thesis using assms tpl c1 None by (simp add: SetupDhcp_def Let_def)
    next
      case True
      obtain args w2 where r: "restartNetworkArguments net w1 = (args, w2)"
        by (cases "restartNetworkArguments net w1")
      have c2: "commands (trace w2) = commands (trace w) @ [RunCommandEv ''ifup'' [''--version'']]"
        using commands_restartNetworkArguments [of net w1] r c1 by simp
      show ?thesis using assms tpl None True r c2
        by (simp add: SetupDhcp_def Let_def runCommand_def infoIfErr_def commands_def
              split: prod.splits option.splits)
    qed
  qed
qed

text \<open>On the small machine the dhclient configuration is new, so the stack is bounced; both
  \<^verbatim>\<open>ifdown\<close> and \<^verbatim>\<open>ifup\<close> fail there, and \<^verbatim>\<open>SetupDhcp\<close> still returns no error.\<close>

theorem SetupDhcp_bounce_gated_witness:
  "fst (convergeFileContents (dhclientConfigFile exampleManager)
          (dhcpConfig examplePkg [exampleNetwork]) exampleWorld) = (True, None) \<and>
   fst (SetupDhcp examplePkg exampleManager [exampleNetwork] exampleWorld) = None \<and>
   commands (trace (snd (SetupDhcp examplePkg exampleManager [exampleNetwork] exampleWorld))) =
     [RunCommandEv ''ifup'' [''--version''],
      RunCommandEv ''ifdown'' [''-a'', ''--no-loopback''],
      RunCommandEv ''ifup'' [''-a'', ''--no-loopback'']]"
proof -
  obtain w1 where conv:
    "convergeFileContents (dhclientConfigFile exampleManager)
       (dhcpConfig examplePkg [exampleNetwork]) exampleWorld = ((True, None), w1)"
    by (simp add: convergeFileContents_def ConvergeFileContents_def dhclientConfigFile_def
          exampleManager_def exampleRunner_def exampleWorld_def exampleFileSystem_def
          dhcpConfig_def ubuntuDHCPConfigTemplate_def)
  have args: "fst (restartNetworkArguments exampleManager w1) = [''-a'', ''--no-loopback'']"
    by (simp add: restartNetworkArguments_def runCommand_def exampleManager_def
          exampleRunner_def ifupVersion07Regex_def Let_def)
  have empty: "commands (trace exampleWorld) = []"
    by (simp add: exampleWorld_def commands_def)
  show ?thesis
    using SetupDhcp_bounce_gated [OF conv] conv args empty by simp
qed

subsection \<open>More on the traces of the steps\<close>

lemma trace_runCommand:
  "trace (snd (runCommand net cmd args w)) = trace w @ [RunCommandEv cmd args]"
  by (simp add: runCommand_def)

lemma trace_infoIfErr:
  "trace (infoIfErr format err w) =
     trace w @ (case err of None \<Rightarrow> [] | Some e \<Rightarrow> [InfoEv ''ubuntuNetManager'' format e])"
  by (simp add: infoIfErr_def split: option.splits)

lemma trace_convergeFileContents:
  "convergeFileContents path content w = (res, w1) \<Longrightarrow>
   trace w1 = trace w @ [ConvergeFileContentsEv path content]"
  by (auto simp: convergeFileContents_def split: prod.splits)

lemma writeResolvConf_trace:
  "trace (snd (writeResolvConf pkg networks w)) =
     trace w @ [WriteFileEv ''/etc/resolv.conf'' (resolvConfig pkg networks)]"
  by (simp add: writeResolvConf_def resolvConfig_def ubuntuResolvConfTemplate_def Let_def
        writeFile_def split: prod.splits option.splits)

lemma commands_writeResolvConf:
  "commands (trace (snd (writeResolvConf pkg networks w))) = commands (trace w)"
  by (simp add: writeResolvConf_trace commands_def)

lemma sorted_map_phase_const:
  "\<forall>e\<in>set evs. phase e = k \<Longrightarrow> sorted (map phase evs)"
  by (induction evs) auto

lemma fileEvents_phase1: "\<forall>e\<in>set evs. phase e = 1 \<Longrightarrow> fileEvents evs = []"
proof (induction evs)
  case Nil
  show ?case by (simp add: fileEvents_def)
next
  case (Cons e evs)
  then show ?case by (cases e) (simp_all add: fileEvents_def)
qed

lemma fileEvents_append: "fileEvents (xs @ ys) = fileEvents xs @ fileEvents ys"
  by (simp add: fileEvents_def)

lemma fileEvents_runCommand:
  "fileEvents (trace (snd (runCommand net cmd args w))) = fileEvents (trace w)"
  by (simp add: runCommand_def fileEvents_def)

lemma fileEvents_infoIfErr:
  "fileEvents (trace (infoIfErr format err w)) = fileEvents (trace w)"
  by (simp add: infoIfErr_def fileEvents_def split: option.splits)

lemma fileEvents_restartNetworkArguments:
  "fileEvents (trace (snd (restartNetworkArguments net w))) = fileEvents (trace w)"
  by (simp add: restartNetworkArguments_def runCommand_def infoIfErr_def Let_def fileEvents_def
        split: prod.splits option.splits)

lemma fileEvents_SetupDhcp:
  "fileEvents (trace (snd (SetupDhcp pkg net networks w))) =
     fileEvents (trace w) @
       [ConvergeFileContentsEv (dhclientConfigFile net) (dhcpConfig pkg networks)]"
proof -
  have tpl: "ubuntuDHCPConfigTemplate (strings_Join (getDNSServers pkg networks) '', '')
               = Inr (dhcpConfig pkg networks)"
    by (simp add: dhcpConfig_def ubuntuDHCPConfigTemplate_def)
  obtain written err w1 where conv:
    "convergeFileContents (dhclientConfigFile net) (dhcpConfig pkg networks) w
       = ((written, err), w1)"
    by (metis prod.exhaust)
  have f1: "fileEvents (trace w1) = fileEvents (trace w) @
              [ConvergeFileContentsEv (dhclientConfigFile net) (dhcpConfig pkg networks)]"
    using trace_convergeFileContents [OF conv] by (simp add: fileEvents_def)
  show ?thesis
  proof (cases "err = None \<and> written")
    case False
    then show ?thesis using conv tpl f1
      by (cases err) (simp_all add: SetupDhcp_def Let_def)
  next
    case True
    obtain args w2 where r: "restartNetworkArguments net w1 = (args, w2)"
      by (cases "restartNetworkArguments net w1")
    have f2: "fileEvents (trace w2) = fileEvents (trace w1)"
      using fileEvents_restartNetworkArguments [of net w1] r by simp
    obtain res3 w3 where d: "runCommand net ''ifdown'' args w2 = (res3, w3)"
      by (cases "runCommand net ''ifdown'' args w2")
    have f3: "fileEvents (trace w3) = fileEvents (trace w2)"
      using fileEvents_runCommand [of net "''ifdown''" args w2] d by simp
    define w4 where "w4 = infoIfErr ''Ignoring ifdown failure: %#v'' (snd (snd (snd res3))) w3"
    obtain res5 w5 where u: "runCommand net ''ifup'' args w4 = (res5, w5)"
      by (cases "runCommand net ''ifup'' args w4")
    have f5: "fileEvents (trace w5) = fileEvents (trace w3)"
      using fileEvents_runCommand [of net "''ifup''" args w4] u
      by (simp add: w4_def fileEvents_infoIfErr)
    have "snd (SetupDhcp pkg net networks w) =
            infoIfErr ''Ignoring ifup failure: %#v'' (snd (snd (snd res5))) w5"
      using conv tpl True r d u
      by (auto simp: SetupDhcp_def Let_def w4_def split: prod.splits)
    then show ?thesis
      using f1 f2 f3 f5 by (simp add: fileEvents_infoIfErr)
  qed
qed

subsection \<open>The restart of the interfaces, and the outcomes of writeNetworkInterfaces\<close>

lemma restartNetworkingInterfaces_fs: "fs (restartNetworkingInterfaces net ms w) = fs w"
  by (induction ms arbitrary: w)
     (simp_all add: runCommand_def infoIfErr_def split: prod.splits option.splits)

lemma restartNetworkingInterfaces_trace:
  "\<exists>evs. trace (restartNetworkingInterfaces net ms w) = trace w @ evs \<and>
         (\<forall>e\<in>set evs. phase e = 1) \<and>
         commands evs = concat (map serviceBounce ms)"
proof (induction ms arbitrary: w)
  case Nil
  show ?case by (simp add: commands_def)
next
  case (Cons m ms)
  let ?stop = "[''network-interface'', ''stop'', ''INTERFACE='' @ Interface m]"
  let ?start = "[''network-interface'', ''start'', ''INTERFACE='' @ Interface m]"
  define r1 where "r1 = runCommand net ''service'' ?stop w"
  define w1 where
    "w1 = infoIfErr ''Ignoring network stop failure: %#v'' (snd (snd (snd (fst r1)))) (snd r1)"
  define r2 where "r2 = runCommand net ''service'' ?start w1"
  define w2 where
    "w2 = infoIfErr ''Ignoring network start failure: %#v'' (snd (snd (snd (fst r2)))) (snd r2)"
  define logged where "logged =
     RunCommandEv ''service'' ?stop #
     (case snd (snd (snd (fst r1))) of None \<Rightarrow> []
      | Some e \<Rightarrow> [InfoEv ''ubuntuNetManager'' ''Ignoring network stop failure: %#v'' e]) @
     RunCommandEv ''service'' ?start #
     (case snd (snd (snd (fst r2))) of None \<Rightarrow> []
      | Some e \<Rightarrow> [InfoEv ''ubuntuNetManager'' ''Ignoring network start failure: %#v'' e])"
  have unfold: "restartNetworkingInterfaces net (m # ms) w = restartNetworkingInterfaces net ms w2"
    by (simp add: r1_def w1_def r2_def w2_def split: prod.splits)
  have tr: "trace w2 = trace w @ logged"
    by (simp add: r1_def w1_def r2_def w2_def logged_def trace_infoIfErr trace_runCommand)
  have ph: "\<forall>e\<in>set logged. phase e = 1"
    by (auto simp: logged_def split: option.splits)
  have cm: "commands logged = serviceBounce m"
    by (simp add: logged_def commands_def serviceBounce_def split: option.splits)
  from Cons.IH [of w2] obtain evs where
    evs: "trace (restartNetworkingInterfaces net ms w2) = trace w2 @ evs"
         "\<forall>e\<in>set evs. phase e = 1" "commands evs = concat (map serviceBounce ms)"
    by blast
  show ?case
  proof (intro exI conjI)
    show "trace (restartNetworkingInterfaces net (m # ms) w) = trace w @ (logged @ evs)"
      using unfold tr evs by simp
    show "\<forall>e\<in>set (logged @ evs). phase e = 1"
      using ph evs by auto
    show "commands (logged @ evs) = concat (map serviceBounce (m # ms))"
      using cm evs by (simp add: commands_append)
  qed
qed

lemma writeNetworkInterfaces_cases:
  assumes "writeNetworkInterfaces pkg networks w = ((ms, written, err), w1)"
  obtains (early) e where "err = Some e" "w1 = w" "\<not> written"
  | (converged) cw cerr where
      "snd (detectMacAddresses (fs w)) = None"
      "writeNetworkInterfaces_loop pkg (fst (detectMacAddresses (fs w))) networks [] = (ms, None)"
      "convergeFileContents ''/etc/network/interfaces'' (interfacesConfig ms) w = ((cw, cerr), w1)"
      "err = map_option (\<lambda>e. WrapError e ''Writing to /etc/network/interfaces'') cerr"
      "written = (cw \<and> cerr = None)"
  using assms
  by (auto simp: writeNetworkInterfaces_def ubuntuNetworkInterfacesTemplate_def
        interfacesConfig_def split: prod.splits option.splits)



lemma writeNetworkInterfaces_loop_gateway:
  "\<forall>m\<in>set acc. HasDefaultGateway m \<Longrightarrow>
   \<forall>m\<in>set (fst (writeNetworkInterfaces_loop pkg macAddresses networks acc)). HasDefaultGateway m"
proof (induction networks arbitrary: acc)
  case Nil
  then show ?case by simp
next
  case (Cons aNet rest)
  show ?case
  proof (cases "CalculateNetworkAndBroadcast pkg (IP aNet) (Netmask aNet)")
    case (Inl e)
    then show ?thesis using Cons.prems by simp
  next
    case (Inr nb)
    obtain network broadcast where nb: "nb = (network, broadcast)" by (cases nb)
    let ?new = "\<lparr>Network = aNet, Interface = mapIndex macAddresses (Mac aNet),
                 NetworkIP = network, Broadcast = broadcast, HasDefaultGateway = True\<rparr>"
    have "\<forall>m\<in>set (acc @ [?new]). HasDefaultGateway m"
      using Cons.prems by simp
    from Cons.IH [OF this] show ?thesis using Inr nb by simp
  qed
qed

subsection \<open>What the writes leave on the disk\<close>

lemma splitOn_not_Nil: "splitOn d s \<noteq> []"
  by (induction s) (auto split: list.splits)

lemma splitOn_append: "splitOn d (xs @ d # ys) = splitOn d xs @ splitOn d ys"
  by (induction xs) (auto simp: splitOn_not_Nil split: list.splits)

lemma cleanElems_snoc:
  "e \<noteq> [] \<Longrightarrow> e \<noteq> ''.'' \<Longrightarrow> e \<noteq> ''..'' \<Longrightarrow>
   cleanElems rooted (es @ [e]) acc = cleanElems rooted es acc @ [e]"
  by (induction rooted es acc rule: cleanElems.induct) (auto split: list.splits)

lemma strings_Join_snoc:
  "strings_Join (xs @ [x]) sep = (if xs = [] then x else strings_Join xs sep @ sep @ x)"
  by (induction xs sep rule: strings_Join.induct) auto

lemma filepath_Clean_address: "suffix ''address'' (filepath_Clean (p @ ''/address''))"
proof -
  have sp: "splitOn CHR ''/'' (p @ ''/address'') = splitOn CHR ''/'' p @ [''address'']"
    using splitOn_append [of "CHR ''/''" p "''address''"] by simp
  have "suffix ''address'' (strings_Join (cleanElems r (splitOn CHR ''/'' p) [] @ [''address'']) ''/'')" for r
    by (simp add: strings_Join_snoc suffix_def)
  moreover have "strings_Join (cleanElems r (splitOn CHR ''/'' p) [] @ [''address'']) ''/'' \<noteq> []" for r
    by (simp add: strings_Join_snoc)
  ultimately show ?thesis
    by (simp add: filepath_Clean_def sp cleanElems_snoc Let_def suffix_Cons)
qed

lemma filepath_Join_address: "suffix ''address'' (filepath_Join p ''address'')"
proof (cases "p = []")
  case True
  then show ?thesis by (simp add: filepath_Join_def filepath_Clean_def)
next
  case False
  then show ?thesis using filepath_Clean_address [of p] by (simp add: filepath_Join_def)
qed

lemma filepath_Join_address_neq:
  "filepath_Join p ''address'' \<noteq> ''/etc/network/interfaces''"
  "filepath_Join p ''address'' \<noteq> ''/etc/resolv.conf''"
proof -
  have a: "\<not> suffix ''address'' ''/etc/network/interfaces''"
    by (simp add: suffix_to_prefix)
  have b: "\<not> suffix ''address'' ''/etc/resolv.conf''"
    by (simp add: suffix_to_prefix)
  show "filepath_Join p ''address'' \<noteq> ''/etc/network/interfaces''"
    using a filepath_Join_address [of p] by auto
  show "filepath_Join p ''address'' \<noteq> ''/etc/resolv.conf''"
    using b filepath_Join_address [of p] by auto
qed

lemma sameDevices_refl: "sameDevices a a"
  by (simp add: sameDevices_def)

lemma sameDevices_trans: "sameDevices a b \<Longrightarrow> sameDevices b c \<Longrightarrow> sameDevices a c"
  by (simp add: sameDevices_def)

lemma ReadFileString_sameDevices:
  "sameDevices a b \<Longrightarrow>
   ReadFileString a (filepath_Join p ''address'') = ReadFileString b (filepath_Join p ''address'')"
  using filepath_Join_address_neq [of p]
  by (auto simp: sameDevices_def ReadFileString_def split: option.splits)

lemma detectMacAddresses_loop_sameDevices:
  "sameDevices a b \<Longrightarrow>
   detectMacAddresses_loop a paths addresses = detectMacAddresses_loop b paths addresses"
  by (induction paths arbitrary: addresses)
     (simp_all add: ReadFileString_sameDevices split: sum.splits)

lemma detectMacAddresses_sameDevices:
  "sameDevices a b \<Longrightarrow> detectMacAddresses a = detectMacAddresses b"
  by (simp add: detectMacAddresses_def Glob_def detectMacAddresses_loop_sameDevices
        sameDevices_def split: sum.splits)

lemma convergeFileContents_fs:
  assumes "convergeFileContents ''/etc/network/interfaces'' content w = ((cw, None), w1)"
  shows "sameDevices (fs w) (fs w1)"
    and "(case files (fs w1) ''/etc/network/interfaces'' of None \<Rightarrow> [] | Some old \<Rightarrow> old) = content"
  using assms
  by (auto simp: convergeFileContents_def ConvergeFileContents_def sameDevices_def
        split: prod.splits if_splits option.splits)

lemma writeResolvConf_fs:
  assumes "writeResolvConf pkg networks w = (None, w1)"
  shows "sameDevices (fs w) (fs w1)"
    and "files (fs w1) ''/etc/network/interfaces'' = files (fs w) ''/etc/network/interfaces''"
    and "writeErrors (fs w) ''/etc/resolv.conf'' = None"
    and "files (fs w1) ''/etc/resolv.conf'' = Some (resolvConfig pkg networks)"
  using assms
  by (auto simp: writeResolvConf_def writeFile_def WriteFile_def sameDevices_def Let_def
        ubuntuResolvConfTemplate_def resolvConfig_def
        split: prod.splits if_splits option.splits)

lemma writeResolvConf_succeeds:
  "writeErrors (fs w) ''/etc/resolv.conf'' = None \<Longrightarrow> fst (writeResolvConf pkg networks w) = None"
  by (simp add: writeResolvConf_def writeFile_def WriteFile_def Let_def
        ubuntuResolvConfTemplate_def)


subsection \<open>The small machine, evaluated\<close>

lemma example_join: "filepath_Join ''/sys/class/net/eth0'' ''address'' = ''/sys/class/net/eth0/address''"
  by (simp add: filepath_Join_def filepath_Clean_def)

lemma example_base: "filepath_Base ''/sys/class/net/eth0'' = ''eth0''"
  by (simp add: filepath_Base_def)

lemma example_detect:
  "detectMacAddresses exampleFileSystem = ([''00:11'' \<mapsto> ''eth0''], None)"
  by (simp add: detectMacAddresses_def Glob_def exampleFileSystem_def ReadFileString_def
        example_join example_base strings_Trim_newline_def)

lemma example_loop:
  "writeNetworkInterfaces_loop examplePkg [''00:11'' \<mapsto> ''eth0''] [exampleNetwork] [] =
     ([\<lparr>Network = exampleNetwork, Interface = [], NetworkIP = ''10.0.0.0'',
        Broadcast = ''10.0.0.255'', HasDefaultGateway = True\<rparr>], None)"
  by (simp add: examplePkg_def exampleNetwork_def mapIndex_def)

lemma example_write:
  "fst (writeNetworkInterfaces examplePkg [exampleNetwork] exampleWorld) =
     ([exampleResolved], True, None)"
proof -
  have d: "detectMacAddresses (fs exampleWorld) = ([''00:11'' \<mapsto> ''eth0''], None)"
    by (simp add: exampleWorld_def example_detect)
  have l: "writeNetworkInterfaces_loop examplePkg [''00:11'' \<mapsto> ''eth0''] [exampleNetwork] []
             = ([exampleResolved], None)"
    unfolding exampleResolved_def by (rule example_loop)
  have c: "fst (convergeFileContents ''/etc/network/interfaces''
                  (interfacesConfig [exampleResolved]) exampleWorld) = (True, None)"
    by (simp add: convergeFileContents_def ConvergeFileContents_def exampleWorld_def
          exampleFileSystem_def interfacesConfig_def ubuntuNetworkInterfacesTemplate_def
          split: prod.splits)
  have tpl: "ubuntuNetworkInterfacesTemplate [exampleResolved]
               = Inr (interfacesConfig [exampleResolved])"
    by (simp add: ubuntuNetworkInterfacesTemplate_def interfacesConfig_def)
  obtain w1 where "convergeFileContents ''/etc/network/interfaces''
                  (interfacesConfig [exampleResolved]) exampleWorld = ((True, None), w1)"
    using c by (cases "convergeFileContents ''/etc/network/interfaces''
                  (interfacesConfig [exampleResolved]) exampleWorld") simp
  then show ?thesis
    using d l tpl by (simp add: writeNetworkInterfaces_def)
qed

lemma example_setup:
  "fst (SetupManualNetworking examplePkg exampleManager [exampleNetwork] errCh exampleWorld) = None"
proof -
  obtain w1 where wr: "writeNetworkInterfaces examplePkg [exampleNetwork] exampleWorld
                         = (([exampleResolved], True, None), w1)"
    using example_write by (cases "writeNetworkInterfaces examplePkg [exampleNetwork] exampleWorld") simp
  from wr have same: "sameDevices (fs exampleWorld) (fs w1)"
    by (cases rule: writeNetworkInterfaces_cases) (auto dest: convergeFileContents_fs(1))
  then have "writeErrors (fs w1) = writeErrors (fs exampleWorld)"
    by (simp add: sameDevices_def)
  then have we: "writeErrors (fs w1) ''/etc/resolv.conf'' = None"
    by (simp add: exampleWorld_def exampleFileSystem_def)
  define w2 where "w2 = restartNetworkingInterfaces exampleManager [exampleResolved] w1"
  have "fs w2 = fs w1"
    unfolding w2_def by (rule restartNetworkingInterfaces_fs)
  then have "writeErrors (fs w2) ''/etc/resolv.conf'' = None"
    using we by simp
  then have "fst (writeResolvConf examplePkg [exampleNetwork] w2) = None"
    by (rule writeResolvConf_succeeds)
  then obtain w3 where "writeResolvConf examplePkg [exampleNetwork] w2 = (None, w3)"
    by (cases "writeResolvConf examplePkg [exampleNetwork] w2") simp
  then show ?thesis using wr
    by (simp add: SetupManualNetworking_def w2_def [symmetric]
          del: restartNetworkingInterfaces.simps)
qed



subsection \<open>The announcer\<close>

lemma waitFileExists_Some_polls:
  assumes "waitFileExists polls path r = Some r'"
  shows "\<exists>j. polls j path"
  by (rule waitFileExists.raw_induct
        [where P = "\<lambda>polls path r r'. \<exists>j. polls j path", OF _ assms])
     (auto split: if_splits)

lemma waitFileExists_never:
  "\<forall>j. \<not> polls j path \<Longrightarrow> waitFileExists polls path r = None"
  using waitFileExists_Some_polls [of polls path r] by (cases "waitFileExists polls path r") auto

lemma waitFileExists_returns:
  assumes "polls j path" "polled r \<le> j"
  shows "\<exists>r' sleeps. waitFileExists polls path r = Some r' \<and>
           rtrace r' = rtrace r @ sleeps \<and> commands sleeps = [] \<and>
           (\<forall>e\<in>set sleeps. \<not> isSendEv e)"
  using assms
proof (induction "j - polled r" arbitrary: r)
  case 0
  then have "polls (polled r) path" by simp
  then show ?case
    by (subst waitFileExists.simps) (simp add: commands_def)
next
  case (Suc d)
  show ?case
  proof (cases "polls (polled r) path")
    case True
    then show ?thesis
      by (subst waitFileExists.simps) (simp add: commands_def)
  next
    case False
    let ?r = "r\<lparr>polled := Suc (polled r), rtrace := rtrace r @ [SleepEv 100000000]\<rparr>"
    have "d = j - polled ?r" "polled ?r \<le> j"
      using Suc.hyps(2) Suc.prems by simp_all
    from Suc.hyps(1) [OF this(1) Suc.prems(1) this(2)]
    obtain r' sleeps where
      w: "waitFileExists polls path ?r = Some r'" "rtrace r' = rtrace ?r @ sleeps"
         "commands sleeps = []" "\<forall>e\<in>set sleeps. \<not> isSendEv e"
      by blast
    have unfold: "waitFileExists polls path r = waitFileExists polls path ?r"
      using False by (subst waitFileExists.simps) simp
    show ?thesis
      using w unfold
      by (intro exI [of _ r'] exI [of _ "SleepEv 100000000 # sleeps"])
         (simp add: commands_def)
  qed
qed

lemma gratuitiousArp_range_returns:
  assumes "\<forall>network\<in>set networks. \<forall>k. \<exists>j\<ge>k.
             polls j (filepath_Join ''/sys/class/net'' (Interface network))"
  shows "\<exists>r' evs. gratuitiousArp_range net polls networks r = Some r' \<and>
           rtrace r' = rtrace r @ evs \<and> commands evs = map arping networks \<and>
           (\<forall>e\<in>set evs. \<not> isSendEv e)"
  using assms
proof (induction networks arbitrary: r)
  case Nil
  show ?case by (simp add: commands_def)
next
  case (Cons network rest)
  let ?path = "filepath_Join ''/sys/class/net'' (Interface network)"
  have "\<forall>k. \<exists>j\<ge>k. polls j ?path"
    using Cons.prems by simp
  then have "\<exists>j\<ge>polled r. polls j ?path" ..
  then obtain j where j: "polls j ?path" "polled r \<le> j"
    by blast
  from waitFileExists_returns [of polls j ?path r, OF j] obtain r1 sleeps where
    w: "waitFileExists polls ?path r = Some r1" "rtrace r1 = rtrace r @ sleeps"
       "commands sleeps = []" "\<forall>e\<in>set sleeps. \<not> isSendEv e"
    by blast
  define res where "res = RunCommand (cmdRunner net) (rtrace r1) ''arping''
       [''-c'', ''1'', ''-U'', ''-I'', Interface network, IP (Network network)]"
  define logged where "logged = [arping network] @
        (case snd (snd (snd res)) of None \<Rightarrow> []
         | Some e \<Rightarrow> [InfoEv ''ubuntuNetManager'' ''Ignoring arping failure: %#v'' e]) @
        [SleepEv (arpWaitInterval net)]"
  define r2 where "r2 = r1\<lparr>rtrace := rtrace r1 @ logged\<rparr>"
  have step: "gratuitiousArp_range net polls (network # rest) r =
                gratuitiousArp_range net polls rest r2"
    using w(1) by (simp add: res_def logged_def r2_def split: prod.splits)
  have lc: "commands logged = [arping network]"
    by (simp add: logged_def commands_def arping_def split: option.splits)
  have ls: "\<forall>e\<in>set logged. \<not> isSendEv e"
    by (auto simp: logged_def arping_def split: option.splits)
  have "\<forall>network\<in>set rest. \<forall>k. \<exists>j\<ge>k.
          polls j (filepath_Join ''/sys/class/net'' (Interface network))"
    using Cons.prems by simp
  from Cons.IH [OF this, of r2] obtain r' evs where
    ih: "gratuitiousArp_range net polls rest r2 = Some r'" "rtrace r' = rtrace r2 @ evs"
        "commands evs = map arping rest" "\<forall>e\<in>set evs. \<not> isSendEv e"
    by blast
  show ?case
  proof (intro exI conjI)
    show "gratuitiousArp_range net polls (network # rest) r = Some r'"
      using step ih(1) by simp
    show "rtrace r' = rtrace r @ (sleeps @ logged @ evs)"
      using ih(2) w(2) by (simp add: r2_def)
    show "commands (sleeps @ logged @ evs) = map arping (network # rest)"
      using w(3) lc ih(3) by (simp add: commands_append)
    show "\<forall>e\<in>set (sleeps @ logged @ evs). \<not> isSendEv e"
      using w(4) ls ih(4) by auto
  qed
qed

lemma gratuitiousArp_rounds_returns:
  assumes "\<forall>network\<in>set networks. \<forall>k. \<exists>j\<ge>k.
             polls j (filepath_Join ''/sys/class/net'' (Interface network))"
  shows "\<exists>r' evs. gratuitiousArp_rounds net polls networks i r = Some r' \<and>
           rtrace r' = rtrace r @ evs \<and>
           commands evs = concat (replicate (6 - i) (map arping networks)) \<and>
           (\<forall>e\<in>set evs. \<not> isSendEv e)"
proof (induction "6 - i" arbitrary: i r)
  case 0
  then show ?case by (simp add: commands_def)
next
  case (Suc n)
  then have i: "i < 6" "n = 6 - Suc i" "6 - i = Suc (6 - Suc i)" by simp_all
  from gratuitiousArp_range_returns [OF assms, of net r] obtain r1 evs1 where
    a: "gratuitiousArp_range net polls networks r = Some r1" "rtrace r1 = rtrace r @ evs1"
       "commands evs1 = map arping networks" "\<forall>e\<in>set evs1. \<not> isSendEv e"
    by blast
  from Suc.hyps(1) [OF i(2), of r1] obtain r' evs where
    b: "gratuitiousArp_rounds net polls networks (Suc i) r1 = Some r'"
       "rtrace r' = rtrace r1 @ evs"
       "commands evs = concat (replicate (6 - Suc i) (map arping networks))"
       "\<forall>e\<in>set evs. \<not> isSendEv e"
    by blast
  show ?case
  proof (intro exI conjI)
    show "gratuitiousArp_rounds net polls networks i r = Some r'"
      using i(1) a(1) b(1) by simp
    show "rtrace r' = rtrace r @ (evs1 @ evs)"
      using a(2) b(2) by simp
    show "commands (evs1 @ evs) = concat (replicate (6 - i) (map arping networks))"
      using a(3) b(3) i(3) by (simp add: commands_append)
    show "\<forall>e\<in>set (evs1 @ evs). \<not> isSendEv e"
      using a(4) b(4) by auto
  qed
qed

text \<open>C5, as amended: when the device entry of every network is there again and again
  (from any poll on, some later poll finds it), \<^verbatim>\<open>gratuitiousArp\<close> returns; the commands it
  ran are the \<^verbatim>\<open>arping\<close> of every network in list order, six times over, so \<open>6 * N\<close>
  announcements; and with a channel it sends \<^verbatim>\<open>nil\<close> exactly once, as its last event,
  after the last announcement, while with the nil channel it sends nothing.\<close>

theorem gratuitiousArp_announcements:
  assumes "\<forall>network\<in>set networks. \<forall>k. \<exists>j\<ge>k.
             polls j (filepath_Join ''/sys/class/net'' (Interface network))"
  shows "\<exists>r' evs. gratuitiousArp net polls networks errCh r = Some r' \<and>
           rtrace r' = rtrace r @ evs @
             (case errCh of None \<Rightarrow> [] | Some ch \<Rightarrow> [SendEv ch None]) \<and>
           commands evs = concat (replicate 6 (map arping networks)) \<and>
           length (commands evs) = 6 * length networks \<and>
           (\<forall>e\<in>set evs. \<not> isSendEv e)"
proof -
  from gratuitiousArp_rounds_returns [OF assms, of net 0 r] obtain r1 evs where
    a: "gratuitiousArp_rounds net polls networks 0 r = Some r1" "rtrace r1 = rtrace r @ evs"
       "commands evs = concat (replicate 6 (map arping networks))"
       "\<forall>e\<in>set evs. \<not> isSendEv e"
    by auto
  have len: "length (concat (replicate 6 (map arping networks))) = 6 * length networks"
    by (simp add: numeral_eq_Suc)
  show ?thesis
    using a len
    by (cases errCh) (auto simp: gratuitiousArp_def)
qed

text \<open>Two networks whose devices appear at the third poll: twelve announcements in list
  order, then the one completion.\<close>

theorem gratuitiousArp_announcements_witness:
  "\<exists>r' evs. gratuitiousArp exampleManager (\<lambda>k path. 2 \<le> k) [exampleResolved, exampleUnplugged]
               (Some 0) \<lparr>polled = 0, rtrace = []\<rparr> = Some r' \<and>
            rtrace r' = evs @ [SendEv 0 None] \<and>
            commands evs = [arping exampleResolved, arping exampleUnplugged,
                            arping exampleResolved, arping exampleUnplugged,
                            arping exampleResolved, arping exampleUnplugged,
                            arping exampleResolved, arping exampleUnplugged,
                            arping exampleResolved, arping exampleUnplugged,
                            arping exampleResolved, arping exampleUnplugged] \<and>
            length (commands evs) = 12 \<and>
            (\<forall>e\<in>set evs. \<not> isSendEv e)"
proof -
  have later: "\<exists>j\<ge>k. (2::nat) \<le> j" for k
    by (rule exI [of _ "max k 2"]) simp
  have appears: "\<forall>network\<in>set [exampleResolved, exampleUnplugged]. \<forall>k. \<exists>j\<ge>k.
          (\<lambda>(k::nat) (path::string). 2 \<le> k) j
            (filepath_Join ''/sys/class/net'' (Interface network))"
    using later by simp
  have six: "concat (replicate 6 (map arping [exampleResolved, exampleUnplugged])) =
               [arping exampleResolved, arping exampleUnplugged,
                arping exampleResolved, arping exampleUnplugged,
                arping exampleResolved, arping exampleUnplugged,
                arping exampleResolved, arping exampleUnplugged,
                arping exampleResolved, arping exampleUnplugged,
                arping exampleResolved, arping exampleUnplugged]"
    by (simp add: numeral_eq_Suc)
  from gratuitiousArp_announcements
         [OF appears, of exampleManager "Some 0" "\<lparr>polled = 0, rtrace = []\<rparr>"]
  obtain r' evs where
    r: "gratuitiousArp exampleManager (\<lambda>k path. 2 \<le> k) [exampleResolved, exampleUnplugged]
          (Some 0) \<lparr>polled = 0, rtrace = []\<rparr> = Some r'"
       "rtrace r' = rtrace \<lparr>polled = 0, rtrace = []\<rparr> @ evs @
          (case Some 0 of None \<Rightarrow> [] | Some ch \<Rightarrow> [SendEv ch None])"
       "commands evs = concat (replicate 6 (map arping [exampleResolved, exampleUnplugged]))"
       "length (commands evs) = 6 * length [exampleResolved, exampleUnplugged]"
       "\<forall>e\<in>set evs. \<not> isSendEv e"
    by blast
  have c: "commands evs = [arping exampleResolved, arping exampleUnplugged,
                arping exampleResolved, arping exampleUnplugged,
                arping exampleResolved, arping exampleUnplugged,
                arping exampleResolved, arping exampleUnplugged,
                arping exampleResolved, arping exampleUnplugged,
                arping exampleResolved, arping exampleUnplugged]"
    using r(3) by (simp only: six)
  have t: "rtrace r' = evs @ [SendEv 0 None]"
    using r(2) by simp
  have l: "length (commands evs) = 12"
    using r(4) by simp
  show ?thesis
    using r(1) t c l r(5) by blast
qed

text \<open>C5 as stated fails: a network whose device entry never appears keeps the announcer
  polling forever. It never returns, so it makes no six rounds and sends no completion.\<close>

lemma example_unplugged_path:
  "filepath_Join ''/sys/class/net'' (Interface exampleUnplugged) = ''/sys/class/net/eth1''"
  by (simp add: exampleUnplugged_def filepath_Join_def filepath_Clean_def)

lemma example_unplugged_never:
  "gratuitiousArp net pollsWithoutEth1 [exampleUnplugged] errCh r = None"
proof -
  have "waitFileExists pollsWithoutEth1 ''/sys/class/net/eth1'' r = None"
    by (rule waitFileExists_never) (simp add: pollsWithoutEth1_def)
  then have "gratuitiousArp_range net pollsWithoutEth1 [exampleUnplugged] r = None"
    by (simp add: example_unplugged_path)
  then have "gratuitiousArp_rounds net pollsWithoutEth1 [exampleUnplugged] 0 r = None"
    by (subst gratuitiousArp_rounds.simps) simp
  then show ?thesis by (simp add: gratuitiousArp_def)
qed

theorem gratuitiousArp_never_announces:
  "gratuitiousArp exampleManager pollsWithoutEth1 [exampleUnplugged] (Some 0)
     \<lparr>polled = 0, rtrace = []\<rparr> = None"
  by (rule example_unplugged_never)

subsection \<open>The order of the steps of SetupManualNetworking\<close>

text \<open>C9: the events of every call of \<^verbatim>\<open>SetupManualNetworking\<close> are ordered by step: the
  convergent write of the interfaces file, then the restarts (only commands and their log
  lines), then the write of \<^verbatim>\<open>/etc/resolv.conf\<close>, then the launch of the goroutine. A call
  that returns no error has made exactly these steps: one convergent write, the restarts of
  every network when the write reported a change and none otherwise, one write of the
  resolver configuration, and last the launch, which is an event of the caller: the call
  returns without running the announcer.\<close>

theorem SetupManualNetworking_order:
  assumes wr: "writeNetworkInterfaces pkg networks w = ((ms, written, err), w1)"
  shows "\<exists>evs. trace (snd (SetupManualNetworking pkg net networks errCh w)) = trace w @ evs \<and>
           sorted (map phase evs) \<and>
           (fst (SetupManualNetworking pkg net networks errCh w) = None \<longrightarrow>
              (\<exists>restarts.
                 evs = [ConvergeFileContentsEv ''/etc/network/interfaces'' (interfacesConfig ms)] @
                       restarts @
                       [WriteFileEv ''/etc/resolv.conf'' (resolvConfig pkg networks),
                        GoGratuitiousArpEv ms errCh] \<and>
                 (\<forall>e\<in>set restarts. phase e = 1) \<and>
                 commands restarts = (if written then concat (map serviceBounce ms) else [])))"
  using wr
proof (cases rule: writeNetworkInterfaces_cases)
  case (early e)
  then show ?thesis using wr by (simp add: SetupManualNetworking_def)
next
  case (converged cw cerr)
  let ?conv = "ConvergeFileContentsEv ''/etc/network/interfaces'' (interfacesConfig ms)"
  have t1: "trace w1 = trace w @ [?conv]"
    using converged(3) by (rule trace_convergeFileContents)
  show ?thesis
  proof (cases err)
    case (Some e)
    then show ?thesis using wr t1 by (simp add: SetupManualNetworking_def)
  next
    case None
    define w2 where "w2 = (if written then restartNetworkingInterfaces net ms w1 else w1)"
    obtain restarts where rs: "trace w2 = trace w1 @ restarts" "\<forall>e\<in>set restarts. phase e = 1"
      "commands restarts = (if written then concat (map serviceBounce ms) else [])"
      using restartNetworkingInterfaces_trace [of net ms w1]
      by (cases written) (auto simp: w2_def commands_def)
    obtain rerr w3 where res: "writeResolvConf pkg networks w2 = (rerr, w3)"
      by (cases "writeResolvConf pkg networks w2")
    have t3: "trace w3 = trace w @ [?conv] @ restarts @
                [WriteFileEv ''/etc/resolv.conf'' (resolvConfig pkg networks)]"
      using writeResolvConf_trace [of pkg networks w2] res rs t1 by simp
    have ph: "sorted (map phase ([?conv] @ restarts @
                [WriteFileEv ''/etc/resolv.conf'' (resolvConfig pkg networks)]))"
      using rs(2) sorted_map_phase_const [of restarts 1] by (auto simp: sorted_append)
    have ph': "sorted (map phase ([?conv] @ restarts @
                [WriteFileEv ''/etc/resolv.conf'' (resolvConfig pkg networks),
                 GoGratuitiousArpEv ms errCh]))"
      using rs(2) sorted_map_phase_const [of restarts 1] by (auto simp: sorted_append)
    show ?thesis
    proof (cases rerr)
      case (Some e)
      then show ?thesis using wr None res t3 ph
        by (simp add: SetupManualNetworking_def w2_def)
    next
      case rnone: None
      show ?thesis
        using wr None res rnone t3 ph' rs
        by (simp add: SetupManualNetworking_def w2_def)
    qed
  qed
qed

text \<open>On the small machine the call returns no error with its steps in this order, although
  the announcer it launched would never return if the device registry never answered.\<close>

theorem SetupManualNetworking_order_witness:
  "fst (SetupManualNetworking examplePkg exampleManager [exampleNetwork] (Some 0) exampleWorld)
     = None \<and>
   (\<exists>restarts.
      trace (snd (SetupManualNetworking examplePkg exampleManager [exampleNetwork] (Some 0)
                    exampleWorld)) =
        [ConvergeFileContentsEv ''/etc/network/interfaces'' (interfacesConfig [exampleResolved])] @
        restarts @
        [WriteFileEv ''/etc/resolv.conf'' (resolvConfig examplePkg [exampleNetwork]),
         GoGratuitiousArpEv [exampleResolved] (Some 0)] \<and>
      commands restarts = serviceBounce exampleResolved) \<and>
   gratuitiousArp exampleManager (\<lambda>k path. False) [exampleResolved] (Some 0)
     \<lparr>polled = 0, rtrace = []\<rparr> = None"
proof -
  let ?call = "SetupManualNetworking examplePkg exampleManager [exampleNetwork] (Some 0) exampleWorld"
  obtain w1 where wr: "writeNetworkInterfaces examplePkg [exampleNetwork] exampleWorld
                         = (([exampleResolved], True, None), w1)"
    using example_write
    by (cases "writeNetworkInterfaces examplePkg [exampleNetwork] exampleWorld") simp
  have ok: "fst ?call = None" by (rule example_setup)
  have tr: "trace exampleWorld = []" by (simp add: exampleWorld_def)
  from SetupManualNetworking_order [OF wr, of exampleManager "Some 0"] ok tr
  obtain restarts where
    "trace (snd ?call) =
        [ConvergeFileContentsEv ''/etc/network/interfaces'' (interfacesConfig [exampleResolved])] @
        restarts @
        [WriteFileEv ''/etc/resolv.conf'' (resolvConfig examplePkg [exampleNetwork]),
         GoGratuitiousArpEv [exampleResolved] (Some 0)]"
    "commands restarts = serviceBounce exampleResolved"
    by auto
  then have shape: "\<exists>restarts.
      trace (snd ?call) =
        [ConvergeFileContentsEv ''/etc/network/interfaces'' (interfacesConfig [exampleResolved])] @
        restarts @
        [WriteFileEv ''/etc/resolv.conf'' (resolvConfig examplePkg [exampleNetwork]),
         GoGratuitiousArpEv [exampleResolved] (Some 0)] \<and>
      commands restarts = serviceBounce exampleResolved"
    by blast
  have "waitFileExists (\<lambda>k path. False)
          (filepath_Join ''/sys/class/net'' (Interface exampleResolved))
          \<lparr>polled = 0, rtrace = []\<rparr> = None"
    by (rule waitFileExists_never) simp
  then have "gratuitiousArp_range exampleManager (\<lambda>k path. False) [exampleResolved]
               \<lparr>polled = 0, rtrace = []\<rparr> = None"
    by simp
  then have "gratuitiousArp_rounds exampleManager (\<lambda>k path. False) [exampleResolved] 0
               \<lparr>polled = 0, rtrace = []\<rparr> = None"
    by (subst gratuitiousArp_rounds.simps) simp
  then have never: "gratuitiousArp exampleManager (\<lambda>k path. False) [exampleResolved] (Some 0)
     \<lparr>polled = 0, rtrace = []\<rparr> = None"
    by (simp add: gratuitiousArp_def)
  show ?thesis using ok shape never by blast
qed

subsection \<open>Calling SetupManualNetworking twice\<close>

text \<open>C6: after a call of \<^verbatim>\<open>SetupManualNetworking\<close> that returned no error, a second call with
  the same networks on the state the first call left returns no error, its convergent write
  of \<^verbatim>\<open>/etc/network/interfaces\<close> reports no change, and it runs no command at all: no
  service is stopped or started.\<close>

theorem SetupManualNetworking_twice_no_restart:
  assumes first: "SetupManualNetworking pkg net networks errCh w = (None, w1)"
  shows "fst (SetupManualNetworking pkg net networks errCh' w1) = None \<and>
         \<not> fst (snd (fst (writeNetworkInterfaces pkg networks w1))) \<and>
         commands (trace (snd (SetupManualNetworking pkg net networks errCh' w1))) =
           commands (trace w1)"
proof -
  obtain ms written err wa where wr: "writeNetworkInterfaces pkg networks w = ((ms, written, err), wa)"
    by (metis prod.exhaust)
  have err: "err = None"
    using first wr by (simp add: SetupManualNetworking_def split: option.splits)
  define wb where "wb = (if written then restartNetworkingInterfaces net ms wa else wa)"
  obtain wc where rc: "writeResolvConf pkg networks wb = (None, wc)"
    and w1: "w1 = wc\<lparr>trace := trace wc @ [GoGratuitiousArpEv ms errCh]\<rparr>"
    using first wr err
    by (auto simp: SetupManualNetworking_def wb_def split: option.splits prod.splits if_splits)
  from wr show ?thesis
  proof (cases rule: writeNetworkInterfaces_cases)
    case (early e)
    then show ?thesis using err by simp
  next
    case (converged cw cerr)
    have cerr: "cerr = None" using converged(4) err by simp
    have conv: "convergeFileContents ''/etc/network/interfaces'' (interfacesConfig ms) w
                  = ((cw, None), wa)"
      using converged(3) cerr by simp
    have fb: "fs wb = fs wa"
      by (simp add: wb_def restartNetworkingInterfaces_fs)
    have same: "sameDevices (fs w) (fs w1)"
      using convergeFileContents_fs(1) [OF conv] writeResolvConf_fs(1) [OF rc] fb w1
      by (auto intro: sameDevices_trans)
    have content: "(case files (fs w1) ''/etc/network/interfaces'' of None \<Rightarrow> [] | Some old \<Rightarrow> old)
                     = interfacesConfig ms"
      using convergeFileContents_fs(2) [OF conv] writeResolvConf_fs(2) [OF rc] fb w1 by simp
    have det: "detectMacAddresses (fs w1) = detectMacAddresses (fs w)"
      using detectMacAddresses_sameDevices [OF same] by simp
    have ok: "writeErrors (fs w1) ''/etc/resolv.conf'' = None"
      using writeResolvConf_fs(3) [OF rc] writeResolvConf_fs(1) [OF rc] w1
      by (simp add: sameDevices_def)
    define w2 where "w2 = w1\<lparr>trace := trace w1 @
               [ConvergeFileContentsEv ''/etc/network/interfaces'' (interfacesConfig ms)]\<rparr>"
    have cv2: "convergeFileContents ''/etc/network/interfaces'' (interfacesConfig ms) w1
                 = ((False, None), w2)"
      using content by (simp add: convergeFileContents_def ConvergeFileContents_def w2_def)
    have tpl: "ubuntuNetworkInterfacesTemplate ms = Inr (interfacesConfig ms)"
      by (simp add: ubuntuNetworkInterfacesTemplate_def interfacesConfig_def)
    obtain macs where macs: "detectMacAddresses (fs w) = (macs, None)"
      using converged(1) by (cases "detectMacAddresses (fs w)") simp
    have second: "writeNetworkInterfaces pkg networks w1 = ((ms, False, None), w2)"
      using converged(2) macs det cv2 tpl by (simp add: writeNetworkInterfaces_def)
    have ok2: "fst (writeResolvConf pkg networks w2) = None"
      using ok by (intro writeResolvConf_succeeds) (simp add: w2_def)
    have c2: "commands (trace (snd (writeResolvConf pkg networks w2))) = commands (trace w1)"
      by (simp add: commands_writeResolvConf) (simp add: w2_def commands_def)
    obtain w3 where r2: "writeResolvConf pkg networks w2 = (None, w3)"
      using ok2 by (cases "writeResolvConf pkg networks w2") simp
    have c3: "commands (trace w3) = commands (trace w1)"
      using c2 r2 by simp
    show ?thesis
      using second r2 c3 by (simp add: SetupManualNetworking_def commands_def)
  qed
qed

theorem SetupManualNetworking_twice_no_restart_witness:
  "fst (SetupManualNetworking examplePkg exampleManager [exampleNetwork] None exampleWorld) = None \<and>
   fst (SetupManualNetworking examplePkg exampleManager [exampleNetwork] None
          (snd (SetupManualNetworking examplePkg exampleManager [exampleNetwork] None
                  exampleWorld))) = None \<and>
   commands (trace (snd (SetupManualNetworking examplePkg exampleManager [exampleNetwork] None
          (snd (SetupManualNetworking examplePkg exampleManager [exampleNetwork] None
                  exampleWorld))))) =
     commands (trace (snd (SetupManualNetworking examplePkg exampleManager [exampleNetwork] None
                  exampleWorld)))"
proof -
  let ?call = "SetupManualNetworking examplePkg exampleManager [exampleNetwork] None exampleWorld"
  have ok: "fst ?call = None" by (rule example_setup)
  then have first: "?call = (None, snd ?call)"
    by (simp add: prod_eq_iff)
  show ?thesis
    using SetupManualNetworking_twice_no_restart [OF first, of None] ok by simp
qed

subsection \<open>Which primitive writes which file\<close>

text \<open>C8: a call of \<^verbatim>\<open>SetupManualNetworking\<close> whose \<^verbatim>\<open>writeNetworkInterfaces\<close> returned no
  error (whether or not it reported a change) calls the write primitives exactly twice: the
  convergent write for \<^verbatim>\<open>/etc/network/interfaces\<close> and then the plain \<^verbatim>\<open>WriteFile\<close> for
  \<^verbatim>\<open>/etc/resolv.conf\<close>, which replaces the file unless the disk refuses the write.
  \<^verbatim>\<open>SetupDhcp\<close> calls only the convergent write, once, for the dhclient configuration.\<close>

theorem resolv_conf_written_unconditionally:
  assumes wr: "writeNetworkInterfaces pkg networks w = ((ms, written, None), w1)"
  shows "fileEvents (trace (snd (SetupManualNetworking pkg net networks errCh w))) =
           fileEvents (trace w) @
             [ConvergeFileContentsEv ''/etc/network/interfaces'' (interfacesConfig ms),
              WriteFileEv ''/etc/resolv.conf'' (resolvConfig pkg networks)] \<and>
         (writeErrors (fs w) ''/etc/resolv.conf'' = None \<longrightarrow>
            files (fs (snd (SetupManualNetworking pkg net networks errCh w))) ''/etc/resolv.conf''
              = Some (resolvConfig pkg networks)) \<and>
         fileEvents (trace (snd (SetupDhcp pkg net networks w))) =
           fileEvents (trace w) @
             [ConvergeFileContentsEv (dhclientConfigFile net) (dhcpConfig pkg networks)]"
  using wr
proof (cases rule: writeNetworkInterfaces_cases)
  case (early e)
  then show ?thesis by simp
next
  case (converged cw cerr)
  have cerr: "cerr = None" using converged(4) by simp
  have conv: "convergeFileContents ''/etc/network/interfaces'' (interfacesConfig ms) w
                = ((cw, None), w1)"
    using converged(3) cerr by simp
  have t1: "trace w1 = trace w @ [ConvergeFileContentsEv ''/etc/network/interfaces''
                                    (interfacesConfig ms)]"
    using conv by (rule trace_convergeFileContents)
  define w2 where "w2 = (if written then restartNetworkingInterfaces net ms w1 else w1)"
  obtain restarts where rs: "trace w2 = trace w1 @ restarts" "\<forall>e\<in>set restarts. phase e = 1"
    using restartNetworkingInterfaces_trace [of net ms w1]
    by (cases written) (auto simp: w2_def)
  have f2: "fs w2 = fs w1"
    by (simp add: w2_def restartNetworkingInterfaces_fs)
  have we: "writeErrors (fs w2) = writeErrors (fs w)"
    using convergeFileContents_fs(1) [OF conv] f2 by (simp add: sameDevices_def)
  obtain rerr w3 where res: "writeResolvConf pkg networks w2 = (rerr, w3)"
    by (cases "writeResolvConf pkg networks w2")
  have t3: "fileEvents (trace w3) = fileEvents (trace w) @
              [ConvergeFileContentsEv ''/etc/network/interfaces'' (interfacesConfig ms),
               WriteFileEv ''/etc/resolv.conf'' (resolvConfig pkg networks)]"
    using writeResolvConf_trace [of pkg networks w2] res rs(1) t1 fileEvents_phase1 [OF rs(2)]
    by (simp add: fileEvents_append) (simp add: fileEvents_def)
  have written_file: "files (fs w3) ''/etc/resolv.conf'' = Some (resolvConfig pkg networks)"
    if "writeErrors (fs w) ''/etc/resolv.conf'' = None"
  proof -
    have "rerr = None"
      using writeResolvConf_succeeds [of w2 pkg networks] that we res by simp
    then show ?thesis using writeResolvConf_fs(4) [of pkg networks w2 w3] res by simp
  qed
  have sm: "fileEvents (trace (snd (SetupManualNetworking pkg net networks errCh w))) =
              fileEvents (trace w3) \<and>
            fs (snd (SetupManualNetworking pkg net networks errCh w)) = fs w3"
    using wr res
    by (cases rerr) (simp_all add: SetupManualNetworking_def w2_def fileEvents_def)
  show ?thesis
    using sm t3 written_file fileEvents_SetupDhcp [of pkg net networks w] by simp
qed

theorem resolv_conf_written_unconditionally_witness:
  "fileEvents (trace (snd (SetupManualNetworking examplePkg exampleManager [exampleNetwork] None
                             exampleWorld))) =
     [ConvergeFileContentsEv ''/etc/network/interfaces'' (interfacesConfig [exampleResolved]),
      WriteFileEv ''/etc/resolv.conf'' (resolvConfig examplePkg [exampleNetwork])] \<and>
   files (fs (snd (SetupManualNetworking examplePkg exampleManager [exampleNetwork] None
                     exampleWorld))) ''/etc/resolv.conf''
     = Some (resolvConfig examplePkg [exampleNetwork]) \<and>
   fileEvents (trace (snd (SetupDhcp examplePkg exampleManager [exampleNetwork] exampleWorld))) =
     [ConvergeFileContentsEv ''/etc/dhcp/dhclient.conf'' (dhcpConfig examplePkg [exampleNetwork])]"
proof -
  obtain w1 where wr: "writeNetworkInterfaces examplePkg [exampleNetwork] exampleWorld
                         = (([exampleResolved], True, None), w1)"
    using example_write
    by (cases "writeNetworkInterfaces examplePkg [exampleNetwork] exampleWorld") simp
  have tr: "fileEvents (trace exampleWorld) = []"
    by (simp add: exampleWorld_def fileEvents_def)
  have we: "writeErrors (fs exampleWorld) ''/etc/resolv.conf'' = None"
    by (simp add: exampleWorld_def exampleFileSystem_def)
  have conf: "dhclientConfigFile exampleManager = ''/etc/dhcp/dhclient.conf''"
    by (simp add: dhclientConfigFile_def exampleManager_def exampleRunner_def)
  show ?thesis
    using resolv_conf_written_unconditionally [OF wr, of exampleManager None] tr we conf
    by simp
qed

subsection \<open>Failures before the first write, and a MAC without a device\<close>







subsection \<open>The gateway line\<close>

lemma splitOn_prepend:
  "d \<notin> set a \<Longrightarrow> splitOn d (a @ s) = (a @ hd (splitOn d s)) # tl (splitOn d s)"
  by (induction a) (auto simp: splitOn_not_Nil split: list.splits)

lemma splitOn_line:
  "d \<notin> set a \<Longrightarrow> splitOn d (a @ d # s) = a # splitOn d s"
  using splitOn_prepend [of d a "d # s"] by simp

lemma splitOn_Cons_sep: "splitOn d (d # s) = [] # splitOn d s"
  by simp

lemma isGatewayLine_simps:
  "\<not> isGatewayLine []"
  "\<not> isGatewayLine (''auto '' @ x)"
  "\<not> isGatewayLine (''iface '' @ x)"
  "\<not> isGatewayLine (''    address '' @ x)"
  "\<not> isGatewayLine (''    network '' @ x)"
  "\<not> isGatewayLine (''    netmask '' @ x)"
  "\<not> isGatewayLine (''    broadcast '' @ x)"
  "isGatewayLine (''    gateway '' @ x)"
  by (simp_all add: isGatewayLine_def)

lemma stanza_lines:
  assumes "singleLine (Interface n)" "singleLine (IP (Network n))" "singleLine (NetworkIP n)"
    "singleLine (Netmask (Network n))" "singleLine (Broadcast n)"
  shows "splitOn CHR 0x0A (interfaceStanza n) =
     [] # (''auto '' @ Interface n) # (''iface '' @ Interface n @ '' inet static'') #
     (''    address '' @ IP (Network n)) # (''    network '' @ NetworkIP n) #
     (''    netmask '' @ Netmask (Network n)) # (''    broadcast '' @ Broadcast n) #
     splitOn CHR 0x0A (if HasDefaultGateway n then ''    gateway '' @ Gateway (Network n) else [])"
proof -
  let ?nl = "CHR 0x0A"
  let ?tail = "if HasDefaultGateway n then ''    gateway '' @ Gateway (Network n) else []"
  have l6: "splitOn ?nl ((''    broadcast '' @ Broadcast n) @ ?nl # ?tail) =
              (''    broadcast '' @ Broadcast n) # splitOn ?nl ?tail"
    using assms by (intro splitOn_line) (simp add: singleLine_def)
  have l5: "splitOn ?nl ((''    netmask '' @ Netmask (Network n)) @ ?nl # s) =
              (''    netmask '' @ Netmask (Network n)) # splitOn ?nl s" for s
    using assms by (intro splitOn_line) (simp add: singleLine_def)
  have l4: "splitOn ?nl ((''    network '' @ NetworkIP n) @ ?nl # s) =
              (''    network '' @ NetworkIP n) # splitOn ?nl s" for s
    using assms by (intro splitOn_line) (simp add: singleLine_def)
  have l3: "splitOn ?nl ((''    address '' @ IP (Network n)) @ ?nl # s) =
              (''    address '' @ IP (Network n)) # splitOn ?nl s" for s
    using assms by (intro splitOn_line) (simp add: singleLine_def)
  have l2: "splitOn ?nl ((''iface '' @ Interface n @ '' inet static'') @ ?nl # s) =
              (''iface '' @ Interface n @ '' inet static'') # splitOn ?nl s" for s
    using assms by (intro splitOn_line) (simp add: singleLine_def)
  have l1: "splitOn ?nl ((''auto '' @ Interface n) @ ?nl # s) =
              (''auto '' @ Interface n) # splitOn ?nl s" for s
    using assms by (intro splitOn_line) (simp add: singleLine_def)
  have shape: "interfaceStanza n =
      ?nl # ((''auto '' @ Interface n) @ ?nl #
        ((''iface '' @ Interface n @ '' inet static'') @ ?nl #
          ((''    address '' @ IP (Network n)) @ ?nl #
            ((''    network '' @ NetworkIP n) @ ?nl #
              ((''    netmask '' @ Netmask (Network n)) @ ?nl #
                ((''    broadcast '' @ Broadcast n) @ ?nl # ?tail))))))"
    by (simp add: interfaceStanza_def)
  show ?thesis
    by (simp only: shape splitOn_Cons_sep l1 l2 l3 l4 l5 l6)
qed

lemma gateway_tail_lines:
  "list_ex isGatewayLine (splitOn CHR 0x0A (''    gateway '' @ g))"
proof -
  have "splitOn CHR 0x0A (''    gateway '' @ g) =
          (''    gateway '' @ hd (splitOn CHR 0x0A g)) # tl (splitOn CHR 0x0A g)"
    by (intro splitOn_prepend) simp
  then show ?thesis by (simp only: list_ex_Cons_iff isGatewayLine_simps) simp
qed

text \<open>C2, as amended: every element \<^verbatim>\<open>writeNetworkInterfaces\<close> builds has
  \<^verbatim>\<open>HasDefaultGateway\<close> true, whatever its gateway is; and the stanza rendered for a network
  (whose interface name and addresses have no line break) has a gateway line exactly when
  \<^verbatim>\<open>HasDefaultGateway\<close> is true.\<close>

theorem HasDefaultGateway_always_true:
  "(\<forall>m\<in>set (fst (fst (writeNetworkInterfaces pkg networks w))). HasDefaultGateway m) \<and>
   (singleLine (Interface n) \<and> singleLine (IP (Network n)) \<and> singleLine (NetworkIP n) \<and>
    singleLine (Netmask (Network n)) \<and> singleLine (Broadcast n) \<longrightarrow>
      hasGatewayLine (interfaceStanza n) = HasDefaultGateway n)"
proof (intro conjI impI)
  have built: "\<forall>m\<in>set (fst (writeNetworkInterfaces_loop pkg macs networks [])). HasDefaultGateway m"
    for macs
    by (rule writeNetworkInterfaces_loop_gateway) simp
  have "fst (fst (writeNetworkInterfaces pkg networks w)) = [] \<or>
        fst (fst (writeNetworkInterfaces pkg networks w)) =
          fst (writeNetworkInterfaces_loop pkg (fst (detectMacAddresses (fs w))) networks [])"
    by (simp add: writeNetworkInterfaces_def ubuntuNetworkInterfacesTemplate_def
          split: prod.splits option.splits)
  then show "\<forall>m\<in>set (fst (fst (writeNetworkInterfaces pkg networks w))). HasDefaultGateway m"
    using built [of "fst (detectMacAddresses (fs w))"] by auto
next
  assume single: "singleLine (Interface n) \<and> singleLine (IP (Network n)) \<and>
    singleLine (NetworkIP n) \<and> singleLine (Netmask (Network n)) \<and> singleLine (Broadcast n)"
  then have lines: "splitOn CHR 0x0A (interfaceStanza n) =
     [] # (''auto '' @ Interface n) # (''iface '' @ Interface n @ '' inet static'') #
     (''    address '' @ IP (Network n)) # (''    network '' @ NetworkIP n) #
     (''    netmask '' @ Netmask (Network n)) # (''    broadcast '' @ Broadcast n) #
     splitOn CHR 0x0A (if HasDefaultGateway n then ''    gateway '' @ Gateway (Network n) else [])"
    by (intro stanza_lines) simp_all
  show "hasGatewayLine (interfaceStanza n) = HasDefaultGateway n"
  proof (cases "HasDefaultGateway n")
    case True
    then show ?thesis
      using gateway_tail_lines [of "Gateway (Network n)"]
      by (simp only: hasGatewayLine_def lines list_ex_Cons_iff if_True) simp
  next
    case False
    then show ?thesis
      by (simp only: hasGatewayLine_def lines list_ex_Cons_iff list_ex_Nil_iff
            isGatewayLine_simps if_False splitOn.simps) simp
  qed
qed

theorem HasDefaultGateway_always_true_witness:
  "list_all HasDefaultGateway
     (fst (fst (writeNetworkInterfaces examplePkg [exampleNetwork] exampleWorld))) \<and>
   hasGatewayLine (interfaceStanza exampleResolved) \<and>
   \<not> hasGatewayLine (interfaceStanza (exampleResolved\<lparr>HasDefaultGateway := False\<rparr>))"
proof -
  have single: "singleLine (Interface exampleResolved)"
    "singleLine (IP (Network exampleResolved))" "singleLine (NetworkIP exampleResolved)"
    "singleLine (Netmask (Network exampleResolved))" "singleLine (Broadcast exampleResolved)"
    by (simp_all add: singleLine_def exampleResolved_def exampleNetwork_def)
  have on: "HasDefaultGateway exampleResolved"
    by (simp add: exampleResolved_def)
  have a: "list_all HasDefaultGateway
     (fst (fst (writeNetworkInterfaces examplePkg [exampleNetwork] exampleWorld)))"
    using HasDefaultGateway_always_true [of examplePkg "[exampleNetwork]" exampleWorld exampleResolved]
    by (simp add: list_all_iff)
  have b: "hasGatewayLine (interfaceStanza exampleResolved)"
    using HasDefaultGateway_always_true [of examplePkg "[exampleNetwork]" exampleWorld exampleResolved]
      single on by simp
  have c: "\<not> hasGatewayLine (interfaceStanza (exampleResolved\<lparr>HasDefaultGateway := False\<rparr>))"
    using HasDefaultGateway_always_true
            [of examplePkg "[exampleNetwork]" exampleWorld
                "exampleResolved\<lparr>HasDefaultGateway := False\<rparr>"]
      single by simp
  show ?thesis using a b c by simp
qed

text \<open>C2 as stated fails: the network of the small machine has an empty gateway, and the
  element built for it has \<^verbatim>\<open>HasDefaultGateway\<close> true.\<close>

theorem empty_gateway_has_default_gateway:
  "Gateway exampleNetwork = [] \<and>
   fst (fst (writeNetworkInterfaces examplePkg [exampleNetwork] exampleWorld)) = [exampleResolved] \<and>
   Network exampleResolved = exampleNetwork \<and>
   HasDefaultGateway exampleResolved"
  using example_write by (simp add: exampleNetwork_def exampleResolved_def)

end
